theory Spec2Isabelle
  imports Complex_Main "HOL-Library.Sublist"
begin

section \<open>JavaScript strings and values\<close>

text \<open>
  Strings are \<^typ>\<open>string\<close>; the keywords and identifiers the code compares are
  ASCII. \<open>str_includes s sub\<close> is \<^verbatim>\<open>s.includes(sub)\<close> (substring test, true for the
  empty needle), \<open>split_first s\<close> is \<^verbatim>\<open>s.split('_')[0]\<close> and \<open>toLowerCase\<close> maps
  the letters A-Z to a-z.
\<close>

fun starts_with :: "string \<Rightarrow> string \<Rightarrow> bool" where
  "starts_with s [] = True"
| "starts_with [] (d # p) = False"
| "starts_with (c # s) (d # p) = (c = d \<and> starts_with s p)"

fun str_includes :: "string \<Rightarrow> string \<Rightarrow> bool" where
  "str_includes [] sub = (sub = [])"
| "str_includes (c # s) sub = (starts_with (c # s) sub \<or> str_includes s sub)"


definition lower_char :: "char \<Rightarrow> char" where
  "lower_char c =
     (case map_of (zip ''ABCDEFGHIJKLMNOPQRSTUVWXYZ'' ''abcdefghijklmnopqrstuvwxyz'') c of
        Some d \<Rightarrow> d
      | None \<Rightarrow> c)"

definition toLowerCase :: "string \<Rightarrow> string" where
  "toLowerCase s = map lower_char s"

text \<open>
  The JSON values the orchestrator calls \<^verbatim>\<open>.includes\<close> on: a string, an array, or
  anything else (\<open>JUndefined\<close>, and \<open>JOther\<close> for numbers, booleans and objects), on
  which the call raises a TypeError.
\<close>

datatype jsval = JUndefined | JStr string | JArr "jsval list" | JOther

datatype js_error = TypeError | Error string

fun js_includes :: "jsval \<Rightarrow> string \<Rightarrow> js_error + bool" where
  "js_includes (JStr s) k = Inr (str_includes s k)"
| "js_includes (JArr xs) k = Inr (JStr k \<in> set xs)"
| "js_includes JUndefined k = Inl TypeError"
| "js_includes JOther k = Inl TypeError"

section \<open>BaseAgent: capability check and metrics\<close>

record agent =
  agent_id :: string
  specialization :: string
  capabilities :: "string list"


text \<open>
  The metrics of an agent. JavaScript numbers are modelled as exact rationals; no
  division by zero occurs in \<open>updateMetrics\<close> (both divisors are at least 1).
\<close>

record metrics =
  tasksCompleted :: nat
  averageResponseTime :: rat
  errorRate :: rat
  collaborations :: nat

definition initial_metrics :: metrics where
  "initial_metrics =
     \<lparr>tasksCompleted = 0, averageResponseTime = 0, errorRate = 0, collaborations = 0\<rparr>"

definition updateMetrics :: "rat \<Rightarrow> bool \<Rightarrow> metrics \<Rightarrow> metrics" where
  "updateMetrics responseTime success m =
     (let m1 = (if success
                then (let tc = tasksCompleted m + 1
                      in m\<lparr>tasksCompleted := tc,
                           averageResponseTime :=
                             (averageResponseTime m * of_nat (tc - 1) + responseTime) / of_nat tc\<rparr>)
                else m);
          totalTasks = tasksCompleted m1 + (if success then 0 else 1);
          errorCount = totalTasks - tasksCompleted m1
      in m1\<lparr>errorRate := (of_nat errorCount / of_nat totalTasks) * 100\<rparr>)"

text \<open>
  A task outcome as the agent records it: \<^verbatim>\<open>completeTask\<close> calls
  \<^verbatim>\<open>updateMetrics(responseTime, true)\<close>, \<^verbatim>\<open>reportError\<close> calls
  \<^verbatim>\<open>updateMetrics(0, false)\<close>.
\<close>

datatype outcome = Completed rat | Failed

fun record_outcome :: "metrics \<Rightarrow> outcome \<Rightarrow> metrics" where
  "record_outcome m (Completed rt) = updateMetrics rt True m"
| "record_outcome m Failed = updateMetrics 0 False m"

definition record_outcomes :: "outcome list \<Rightarrow> metrics" where
  "record_outcomes os = foldl record_outcome initial_metrics os"

definition errors_seen :: "outcome list \<Rightarrow> nat" where
  "errors_seen os = length (filter (\<lambda>x. x = Failed) os)"

definition completed_seen :: "outcome list \<Rightarrow> nat" where
  "completed_seen os = length (filter (\<lambda>x. x \<noteq> Failed) os)"


section \<open>Messages\<close>

text \<open>
  \<^verbatim>\<open>toAgent\<close> is one agent id, an array of ids, or absent (\<^verbatim>\<open>undefined\<close>, which
  \<^verbatim>\<open>sendMessage\<close> wraps into a one-element array and the template string of the
  channel name renders as the text undefined).
\<close>

datatype recipient = Agent string | Agents "string list" | NoAgent

fun recipients :: "recipient \<Rightarrow> string list" where
  "recipients (Agent a) = [a]"
| "recipients (Agents as) = as"
| "recipients NoAgent = [''undefined'']"

text \<open>The argument of \<^verbatim>\<open>sendMessage\<close>; optional fields are options.\<close>

record 'p send_request =
  rq_type :: string
  rq_sessionId :: string
  rq_fromAgent :: string
  rq_toAgent :: recipient
  rq_payload :: 'p
  rq_correlationId :: "string option"
  rq_priority :: "int option"
  rq_ttl :: "int option"

text \<open>
  The enriched message. \<^verbatim>\<open>timestamp\<close> is the ISO date of the source read back as
  milliseconds since the epoch (\<^verbatim>\<open>new Date(timestamp)\<close>); \<^verbatim>\<open>retryCount\<close> and
  \<^verbatim>\<open>maxRetries\<close> are absent from the messages of the simplified queue.
\<close>

record 'p message =
  msg_id :: string
  timestamp :: int
  msg_type :: string
  sessionId :: string
  fromAgent :: string
  toAgent :: recipient
  payload :: 'p
  correlationId :: string
  priority :: int
  ttl :: int
  status :: string
  retryCount :: "nat option"
  maxRetries :: "nat option"

text \<open>
  \<^verbatim>\<open>x || d\<close>: the default replaces every falsy value, that is \<^verbatim>\<open>undefined\<close>, the
  empty string and the number 0.
\<close>

definition or_str :: "string option \<Rightarrow> string \<Rightarrow> string" where
  "or_str x d = (case x of None \<Rightarrow> d | Some s \<Rightarrow> if s = [] then d else s)"

definition or_num :: "int option \<Rightarrow> int \<Rightarrow> int" where
  "or_num x d = (case x of None \<Rightarrow> d | Some n \<Rightarrow> if n = 0 then d else n)"

definition or_count :: "nat option \<Rightarrow> nat \<Rightarrow> nat" where
  "or_count x d = (case x of None \<Rightarrow> d | Some n \<Rightarrow> if n = 0 then d else n)"

definition stream_key :: "string \<Rightarrow> string \<Rightarrow> string" where
  "stream_key sid r = ''a2a:'' @ sid @ '':'' @ r"

record log_event =
  ev_event :: string
  ev_messageId :: string
  ev_fromAgent :: string
  ev_toAgent :: string
  ev_type :: string

text \<open>
  \<^verbatim>\<open>messageAge = (Date.now() - new Date(messageData.timestamp)) / 1000\<close> and the test
  \<^verbatim>\<open>messageAge > messageData.ttl\<close>, shared by both queues.
\<close>

definition messageAge :: "int \<Rightarrow> 'p message \<Rightarrow> rat" where
  "messageAge now messageData = of_int (now - timestamp messageData) / 1000"

definition expired :: "int \<Rightarrow> 'p message \<Rightarrow> bool" where
  "expired now messageData \<longleftrightarrow> messageAge now messageData > of_int (ttl messageData)"

section \<open>MessageQueue: Redis streams with acknowledgment, retry and dead letters\<close>

text \<open>
  The state of the durable queue and of the Redis keys it uses. Each stream has one
  consumer group (\<^verbatim>\<open>agentId_group\<close>): \<open>streams\<close> holds, oldest first, the entries
  that the group has not been given yet (what \<^verbatim>\<open>XREADGROUP ... '>'\<close> reads), \<open>pending\<close>
  the ids of the entries delivered and not acknowledged. \<open>timers\<close> are the pending
  \<^verbatim>\<open>setTimeout\<close> callbacks of \<^verbatim>\<open>retryMessage\<close>: due time, stream, message to add,
  entry to acknowledge. \<open>handled\<close> logs the calls of the subscriber's handler. Redis is
  taken to be connected and to answer every command.
\<close>

record 'p mq =
  streams :: "string \<Rightarrow> (nat \<times> 'p message) list"
  pending :: "string \<Rightarrow> nat list"
  next_entry :: nat
  log_stream :: "string \<Rightarrow> log_event list"
  dlq :: "string \<Rightarrow> ('p message \<times> int) list"
  timers :: "(int \<times> string \<times> 'p message \<times> nat) list"
  handled :: "'p message list"

definition empty_mq :: "'p mq" where
  "empty_mq =
     \<lparr>streams = (\<lambda>k. []), pending = (\<lambda>k. []), next_entry = 0, log_stream = (\<lambda>k. []),
      dlq = (\<lambda>k. []), timers = [], handled = []\<rparr>"

definition xadd :: "string \<Rightarrow> 'p message \<Rightarrow> 'p mq \<Rightarrow> 'p mq" where
  "xadd key m st =
     st\<lparr>streams := (streams st)(key := streams st key @ [(next_entry st, m)]),
        next_entry := next_entry st + 1\<rparr>"

definition xack :: "string \<Rightarrow> nat \<Rightarrow> 'p mq \<Rightarrow> 'p mq" where
  "xack key entryId st = st\<lparr>pending := (pending st)(key := removeAll entryId (pending st key))\<rparr>"

definition xreadgroup :: "string \<Rightarrow> 'p mq \<Rightarrow> (nat \<times> 'p message) option \<times> 'p mq" where
  "xreadgroup key st =
     (case streams st key of
        [] \<Rightarrow> (None, st)
      | e # es \<Rightarrow>
          (Some e, st\<lparr>streams := (streams st)(key := es),
                       pending := (pending st)(key := pending st key @ [fst e])\<rparr>))"

definition enrichedMessage :: "string \<Rightarrow> int \<Rightarrow> 'p send_request \<Rightarrow> 'p message" where
  "enrichedMessage messageId now message =
     \<lparr>msg_id = messageId,
      timestamp = now,
      msg_type = rq_type message,
      sessionId = rq_sessionId message,
      fromAgent = rq_fromAgent message,
      toAgent = rq_toAgent message,
      payload = rq_payload message,
      correlationId = or_str (rq_correlationId message) messageId,
      priority = or_num (rq_priority message) 5,
      ttl = or_num (rq_ttl message) 300,
      status = ''sent'',
      retryCount = Some 0,
      maxRetries = Some 3\<rparr>"

definition log_sent :: "string \<Rightarrow> 'p send_request \<Rightarrow> string \<Rightarrow> log_event" where
  "log_sent messageId message recipient =
     \<lparr>ev_event = ''message_sent'', ev_messageId = messageId,
      ev_fromAgent = rq_fromAgent message, ev_toAgent = recipient, ev_type = rq_type message\<rparr>"

fun send_to :: "'p message \<Rightarrow> 'p send_request \<Rightarrow> string list \<Rightarrow> 'p mq \<Rightarrow> 'p mq" where
  "send_to em message [] st = st"
| "send_to em message (recipient # rs) st =
     (let st1 = xadd (stream_key (rq_sessionId message) recipient) em st;
          logKey = ''a2a:log:'' @ rq_sessionId message;
          st2 = st1\<lparr>log_stream := (log_stream st1)
                  (logKey := log_stream st1 logKey @ [log_sent (msg_id em) message recipient])\<rparr>
      in send_to em message rs st2)"

text \<open>
  \<^verbatim>\<open>sendMessage(message)\<close>; the generated uuid and the clock are arguments. It returns
  the message id and the new state.
\<close>

definition sendMessage :: "string \<Rightarrow> int \<Rightarrow> 'p send_request \<Rightarrow> 'p mq \<Rightarrow> string \<times> 'p mq" where
  "sendMessage messageId now message st =
     (messageId,
      send_to (enrichedMessage messageId now message) message (recipients (rq_toAgent message)) st)"

text \<open>
  \<^verbatim>\<open>retryMessage\<close>: the count is incremented on the parsed message, which is then
  either scheduled for re-publication after \<^verbatim>\<open>2^retryCount\<close> seconds or written to
  the dead-letter stream of its session. A missing \<^verbatim>\<open>maxRetries\<close> makes the
  comparison false.
\<close>

definition retryMessage :: "int \<Rightarrow> string \<Rightarrow> nat \<Rightarrow> 'p message \<Rightarrow> 'p mq \<Rightarrow> 'p mq" where
  "retryMessage now streamKey entryId messageData0 st =
     (let rc = or_count (retryCount messageData0) 0 + 1;
          messageData = messageData0\<lparr>retryCount := Some rc\<rparr>
      in if (case maxRetries messageData of None \<Rightarrow> False | Some mx \<Rightarrow> rc < mx)
         then st\<lparr>timers := timers st @ [(now + 2 ^ rc * 1000, streamKey, messageData, entryId)]\<rparr>
         else xack streamKey entryId
                (st\<lparr>dlq := (dlq st)
                   (sessionId messageData := dlq st (sessionId messageData) @ [(messageData, now)])\<rparr>))"

text \<open>The callback of a retry timer: add the message to the stream, acknowledge the original.\<close>

definition fire_timer :: "int \<times> string \<times> 'p message \<times> nat \<Rightarrow> 'p mq \<Rightarrow> 'p mq" where
  "fire_timer t st = (case t of (due, streamKey, messageData, entryId) \<Rightarrow>
     xack streamKey entryId (xadd streamKey messageData st))"

definition run_timers :: "int \<Rightarrow> 'p mq \<Rightarrow> 'p mq" where
  "run_timers now st =
     foldl (\<lambda>s t. fire_timer t s)
       (st\<lparr>timers := filter (\<lambda>t. now < fst t) (timers st)\<rparr>)
       (filter (\<lambda>t. fst t \<le> now) (timers st))"

text \<open>
  One pass of the \<^verbatim>\<open>consumer\<close> closure of \<^verbatim>\<open>consumeMessages\<close> at clock \<open>now\<close>:
  read at most one entry, drop it when expired, otherwise call the handler registered
  for the consumer. A handler is a function that tells whether the call resolved (True)
  or threw (False).
\<close>

definition consumer :: "int \<Rightarrow> ('p message \<Rightarrow> bool) option \<Rightarrow> string \<Rightarrow> 'p mq \<Rightarrow> 'p mq" where
  "consumer now handler streamKey st =
     (case xreadgroup streamKey st of
        (None, st1) \<Rightarrow> st1
      | (Some (entryId, messageData), st1) \<Rightarrow>
          if expired now messageData then xack streamKey entryId st1
          else (case handler of
                  None \<Rightarrow> st1
                | Some h \<Rightarrow>
                    (let st2 = st1\<lparr>handled := handled st1 @ [messageData]\<rparr>
                     in if h messageData then xack streamKey entryId st2
                        else retryMessage now streamKey entryId messageData st2)))"


text \<open>
  The clock values of successive deliveries of a message that has been retried \<open>k\<close>
  times: the message has not expired at any of them, and each retry comes once its
  back-off timer is due.
\<close>

fun schedule_ok :: "'p message \<Rightarrow> nat \<Rightarrow> int list \<Rightarrow> bool" where
  "schedule_ok m k [] = True"
| "schedule_ok m k [t] = (\<not> expired t m)"
| "schedule_ok m k (t # t' # ts) =
     (\<not> expired t m \<and> t + 2 ^ (Suc k) * 1000 \<le> t' \<and> schedule_ok m (Suc k) (t' # ts))"

section \<open>SimpleMessageQueue: Redis publish and subscribe\<close>

record history_event =
  hv_event :: string
  hv_messageId :: string
  hv_fromAgent :: string
  hv_toAgent :: string
  hv_type :: string
  hv_timestamp :: int

text \<open>
  \<open>published\<close> are the \<^verbatim>\<open>PUBLISH\<close> calls (channel and message), \<open>history\<close> the
  per-session list filled by \<^verbatim>\<open>lPush\<close> (newest first) with its expiry in seconds,
  \<open>simple_handled\<close> the calls of subscribers' handlers.
\<close>

record 'p pubsub =
  published :: "(string \<times> 'p message) list"
  history :: "string \<Rightarrow> history_event list"
  history_ttl :: "string \<Rightarrow> nat option"
  simple_handled :: "'p message list"

definition empty_pubsub :: "'p pubsub" where
  "empty_pubsub =
     \<lparr>published = [], history = (\<lambda>k. []), history_ttl = (\<lambda>k. None), simple_handled = []\<rparr>"




text \<open>
  The callback that \<^verbatim>\<open>subscribeToMessages\<close> registers on a channel, run at clock
  \<open>now\<close> on a received message: an expired message is skipped, otherwise the handler
  is called; an exception is caught and logged, nothing is retried.
\<close>

definition on_message ::
  "int \<Rightarrow> ('p message \<Rightarrow> bool) option \<Rightarrow> 'p message \<Rightarrow> 'p pubsub \<Rightarrow> 'p pubsub" where
  "on_message now handler messageData st =
     (if expired now messageData then st
      else (case handler of
              None \<Rightarrow> st
            | Some h \<Rightarrow> st\<lparr>simple_handled := simple_handled st @ [messageData]\<rparr>))"

section \<open>AgentOrchestrator: data\<close>

record capability =
  cap_specialization :: string
  cap_capabilities :: "string list"
  preferredModels :: "string list"
  maxConcurrentTasks :: nat
  cap_averageResponseTime :: nat

text \<open>
  \<^verbatim>\<open>agentCapabilities\<close> is a Map; iteration follows insertion order, so it is an
  association list, read with \<^const>\<open>map_of\<close>. \<open>initial_capabilities\<close> is what
  \<^verbatim>\<open>initializeAgentCapabilities\<close> inserts.
\<close>

definition initial_capabilities :: "(string \<times> capability) list" where
  "initial_capabilities =
    [(''architectrix'',
       \<lparr>cap_specialization = ''system_architecture'',
        cap_capabilities = [''system_design'', ''architecture_planning'', ''technology_selection'',
          ''scalability_analysis'', ''performance_optimization''],
        preferredModels = [''gpt-4'', ''claude-3-opus''],
        maxConcurrentTasks = 3, cap_averageResponseTime = 15000\<rparr>),
     (''code_conjurer'',
       \<lparr>cap_specialization = ''code_generation'',
        cap_capabilities = [''code_writing'', ''code_review'', ''refactoring'', ''debugging'',
          ''testing''],
        preferredModels = [''gpt-4'', ''claude-3-sonnet''],
        maxConcurrentTasks = 5, cap_averageResponseTime = 8000\<rparr>),
     (''api_architect'',
       \<lparr>cap_specialization = ''api_design'',
        cap_capabilities = [''api_design'', ''endpoint_planning'', ''documentation'',
          ''integration_patterns'', ''security_design''],
        preferredModels = [''gpt-4'', ''claude-3-sonnet''],
        maxConcurrentTasks = 4, cap_averageResponseTime = 12000\<rparr>),
     (''frontend_developer'',
       \<lparr>cap_specialization = ''frontend_development'',
        cap_capabilities = [''ui_development'', ''component_design'', ''styling'',
          ''user_experience'', ''responsive_design''],
        preferredModels = [''gpt-4'', ''claude-3-sonnet''],
        maxConcurrentTasks = 4, cap_averageResponseTime = 10000\<rparr>),
     (''backend_developer'',
       \<lparr>cap_specialization = ''backend_development'',
        cap_capabilities = [''server_logic'', ''database_design'', ''performance_optimization'',
          ''security_implementation'', ''deployment''],
        preferredModels = [''gpt-4'', ''claude-3-sonnet''],
        maxConcurrentTasks = 4, cap_averageResponseTime = 12000\<rparr>),
     (''technical_writer'',
       \<lparr>cap_specialization = ''documentation'',
        cap_capabilities = [''documentation'', ''technical_writing'', ''user_guides'',
          ''api_documentation'', ''tutorials''],
        preferredModels = [''gpt-3.5-turbo'', ''claude-3-haiku''],
        maxConcurrentTasks = 6, cap_averageResponseTime = 6000\<rparr>)]"

datatype phase = Analysis | Planning | Implementation | Review | Completion

definition phases :: "phase list" where
  "phases = [Analysis, Planning, Implementation, Review, Completion]"

fun phase_index :: "phase \<Rightarrow> nat" where
  "phase_index Analysis = 0"
| "phase_index Planning = 1"
| "phase_index Implementation = 2"
| "phase_index Review = 3"
| "phase_index Completion = 4"

record analysis_result =
  requirements :: jsval
  architecture :: jsval

text \<open>
  A task object. \<^verbatim>\<open>status\<close> is an option because \<^verbatim>\<open>handleTaskProgress\<close> may store
  an absent status; dates are clock values. The fields \<^verbatim>\<open>input\<close> and
  \<^verbatim>\<open>expectedOutput\<close> are data for the agent that the orchestrator never reads; they
  are left out.
\<close>

record task =
  t_id :: string
  t_type :: string
  t_sessionId :: string
  t_assignedAgent :: string
  t_status :: "string option"
  t_priority :: int
  t_dependencies :: "string list"
  t_deadline :: int
  t_createdAt :: int
  t_completedAt :: "int option"
  t_result :: "analysis_result option"
  t_deliverables :: jsval
  t_progress :: "int option"
  t_lastUpdate :: "int option"
  t_reassignedAt :: "int option"
  t_previousAgent :: "string option"

text \<open>The payload object of a message; every field may be absent.\<close>

record payload =
  p_taskId :: "string option"
  p_result :: "analysis_result option"
  p_deliverables :: jsval
  p_progress :: "int option"
  p_status :: "string option"
  p_question :: "string option"
  p_context :: "string option"
  p_urgency :: "string option"
  p_error :: "string option"
  p_severity :: "string option"
  p_targetAgent :: "string option"
  p_collaborationType :: "string option"
  p_requestingAgent :: "string option"
  p_task :: "task option"

definition no_payload :: payload where
  "no_payload =
     \<lparr>p_taskId = None, p_result = None, p_deliverables = JUndefined, p_progress = None,
      p_status = None, p_question = None, p_context = None, p_urgency = None, p_error = None,
      p_severity = None, p_targetAgent = None, p_collaborationType = None,
      p_requestingAgent = None, p_task = None\<rparr>"

text \<open>
  The workflow of a session. The task arrays hold references to task objects (indices
  into the store \<open>tasks\<close> of the orchestrator), since the code pushes one object into
  several arrays and mutates it in place. \<open>phaseTrace\<close> is not a field of the source: it
  records, in order, every value assigned to \<^verbatim>\<open>currentPhase\<close>.
\<close>

record workflow =
  w_id :: string
  w_sessionId :: string
  userRequirement :: string
  w_status :: string
  startTime :: int
  endTime :: "int option"
  currentPhase :: phase
  activeTasks :: "nat list"
  completedTasks :: "nat list"
  w_activeAgents :: "string list"
  messageHistory :: "(payload option message \<times> int) list"
  state_requirements :: jsval
  state_architecture :: jsval
  phaseTrace :: "phase list"

record agent_instance =
  ai_id :: string
  ai_sessionId :: string
  ai_capabilities :: capability
  ai_status :: string
  lastSeen :: int
  ai_metrics :: "nat \<times> nat \<times> nat"

record project_context =
  existingFiles :: "string list option"

text \<open>
  The orchestrator object. \<open>sent\<close> are the arguments of the calls of
  \<^verbatim>\<open>messageQueue.sendMessage\<close>, \<open>subscriptions\<close> those of
  \<^verbatim>\<open>messageQueue.subscribeToMessages\<close>; the queue is taken to accept every call.
  \<^verbatim>\<open>uuidv4()\<close> reads the next value of \<open>uuid_source\<close>.
\<close>

record orchestrator =
  activeAgents :: "string \<Rightarrow> agent_instance option"
  sessionWorkflows :: "string \<Rightarrow> workflow option"
  agentCapabilities :: "(string \<times> capability) list"
  workflowStates :: "string \<Rightarrow> string option"
  tasks :: "nat \<Rightarrow> task option"
  next_ref :: nat
  sent :: "payload option send_request list"
  subscriptions :: "(string \<times> string) list"
  uuid_source :: "nat \<Rightarrow> string"
  uuid_count :: nat

text \<open>How a method ends: it returns, or throws after the changes made so far.\<close>

datatype 's exec = Done 's | Raised js_error 's

fun exec_state :: "'s exec \<Rightarrow> 's" where
  "exec_state (Done s) = s"
| "exec_state (Raised e s) = s"

fun exec_bind :: "'s exec \<Rightarrow> ('s \<Rightarrow> 's exec) \<Rightarrow> 's exec" where
  "exec_bind (Done s) f = f s"
| "exec_bind (Raised e s) f = Raised e s"

definition AgentOrchestrator_new :: "(nat \<Rightarrow> string) \<Rightarrow> orchestrator" where
  "AgentOrchestrator_new src =
     \<lparr>activeAgents = (\<lambda>k. None), sessionWorkflows = (\<lambda>k. None),
      agentCapabilities = initial_capabilities, workflowStates = (\<lambda>k. None),
      tasks = (\<lambda>r. None), next_ref = 0, sent = [], subscriptions = [],
      uuid_source = src, uuid_count = 0\<rparr>"

definition uuidv4 :: "orchestrator \<Rightarrow> string \<times> orchestrator" where
  "uuidv4 orc = (uuid_source orc (uuid_count orc), orc\<lparr>uuid_count := uuid_count orc + 1\<rparr>)"

definition send_call :: "payload option send_request \<Rightarrow> orchestrator \<Rightarrow> orchestrator" where
  "send_call rq orc = orc\<lparr>sent := sent orc @ [rq]\<rparr>"

definition new_task :: "task \<Rightarrow> orchestrator \<Rightarrow> nat \<times> orchestrator" where
  "new_task t orc =
     (next_ref orc, orc\<lparr>tasks := (tasks orc)(next_ref orc \<mapsto> t), next_ref := next_ref orc + 1\<rparr>)"

definition update_task :: "nat \<Rightarrow> (task \<Rightarrow> task) \<Rightarrow> orchestrator \<Rightarrow> orchestrator" where
  "update_task r f orc =
     (case tasks orc r of None \<Rightarrow> orc | Some t \<Rightarrow> orc\<lparr>tasks := (tasks orc)(r \<mapsto> f t)\<rparr>)"

definition put_workflow :: "string \<Rightarrow> workflow \<Rightarrow> orchestrator \<Rightarrow> orchestrator" where
  "put_workflow sid w orc = orc\<lparr>sessionWorkflows := (sessionWorkflows orc)(sid \<mapsto> w)\<rparr>"

definition set_phase :: "phase \<Rightarrow> workflow \<Rightarrow> workflow" where
  "set_phase p w = w\<lparr>currentPhase := p, phaseTrace := phaseTrace w @ [p]\<rparr>"

text \<open>\<^verbatim>\<open>Set.add\<close> on a set kept in insertion order.\<close>

definition set_add :: "string \<Rightarrow> string list \<Rightarrow> string list" where
  "set_add x xs = (if x \<in> set xs then xs else xs @ [x])"

text \<open>\<^verbatim>\<open>findIndex\<close> and \<^verbatim>\<open>find\<close> on an array, and \<^verbatim>\<open>splice(i, 1)\<close>.\<close>

fun findIndex :: "('a \<Rightarrow> bool) \<Rightarrow> 'a list \<Rightarrow> nat option" where
  "findIndex P [] = None"
| "findIndex P (x # xs) =
     (if P x then Some 0 else (case findIndex P xs of None \<Rightarrow> None | Some i \<Rightarrow> Some (Suc i)))"

definition splice1 :: "nat \<Rightarrow> 'a list \<Rightarrow> 'a list" where
  "splice1 i xs = take i xs @ drop (Suc i) xs"

definition has_id :: "orchestrator \<Rightarrow> string option \<Rightarrow> nat \<Rightarrow> bool" where
  "has_id orc taskId r =
     (case tasks orc r of None \<Rightarrow> False | Some t \<Rightarrow> Some (t_id t) = taskId)"

definition is_analysis :: "orchestrator \<Rightarrow> nat \<Rightarrow> bool" where
  "is_analysis orc r =
     (case tasks orc r of None \<Rightarrow> False | Some t \<Rightarrow> t_type t = ''requirements_analysis'')"

section \<open>AgentOrchestrator: operations\<close>

text \<open>
  \<^verbatim>\<open>determineRequiredAgents(requirements, architecture)\<close>. Every \<^verbatim>\<open>.includes\<close> call
  has the same receiver, so the first call raises exactly when any would.
\<close>

definition determineRequiredAgents :: "jsval \<Rightarrow> jsval \<Rightarrow> js_error + string list" where
  "determineRequiredAgents reqs arch =
     (case js_includes reqs ''frontend'' of
        Inl e \<Rightarrow> Inl e
      | Inr b \<Rightarrow>
          (let inc = (\<lambda>k. js_includes reqs k = Inr True);
               a1 = (if inc ''frontend'' \<or> inc ''ui''
                     then set_add ''frontend_developer'' [] else []);
               a2 = (if inc ''backend'' \<or> inc ''api''
                     then set_add ''backend_developer'' a1 else a1);
               a3 = (if inc ''api'' \<or> inc ''endpoints''
                     then set_add ''api_architect'' a2 else a2);
               a4 = (if inc ''documentation'' \<or> inc ''docs''
                     then set_add ''technical_writer'' a3 else a3)
           in Inr (set_add ''code_conjurer'' a4)))"

definition implementation_task :: "string \<Rightarrow> capability \<Rightarrow> string \<Rightarrow> string \<Rightarrow> int \<Rightarrow> task" where
  "implementation_task uid c sid agentId now =
     \<lparr>t_id = uid, t_type = cap_specialization c @ ''_implementation'', t_sessionId = sid,
      t_assignedAgent = agentId, t_status = Some ''pending'', t_priority = 7,
      t_dependencies = [], t_deadline = now + 600000, t_createdAt = now,
      t_completedAt = None, t_result = None, t_deliverables = JUndefined, t_progress = None,
      t_lastUpdate = None, t_reassignedAt = None, t_previousAgent = None\<rparr>"

text \<open>
  \<^verbatim>\<open>createImplementationTasks\<close>: one new task object per needed agent; reading the
  specialization of an agent missing from the registry raises a TypeError (after the
  uuid of the task has been drawn).
\<close>

fun createImplementationTasks ::
  "string \<Rightarrow> int \<Rightarrow> string list \<Rightarrow> nat list \<Rightarrow> orchestrator \<Rightarrow> (js_error + nat list) \<times> orchestrator"
where
  "createImplementationTasks sid now [] acc orc = (Inr acc, orc)"
| "createImplementationTasks sid now (agentId # rest) acc orc =
     (case uuidv4 orc of (uid, orc1) \<Rightarrow>
        (case map_of (agentCapabilities orc1) agentId of
           None \<Rightarrow> (Inl TypeError, orc1)
         | Some c \<Rightarrow>
             (case new_task (implementation_task uid c sid agentId now) orc1 of (r, orc2) \<Rightarrow>
                createImplementationTasks sid now rest (acc @ [r]) orc2)))"

text \<open>
  \<^verbatim>\<open>assignTaskToAgent(sessionId, task)\<close>; the task is given by its reference. The
  message carries the task as it is when sent. A reference always denotes an object, so
  the branch for an empty store cell is never taken.
\<close>

definition assignTaskToAgent :: "string \<Rightarrow> nat \<Rightarrow> orchestrator \<Rightarrow> orchestrator exec" where
  "assignTaskToAgent sid r orc =
     (case sessionWorkflows orc sid of
        None \<Rightarrow> Raised TypeError orc
      | Some w \<Rightarrow>
          (case tasks orc r of
             None \<Rightarrow> Raised TypeError orc
           | Some t \<Rightarrow>
               (let w1 = w\<lparr>activeTasks := activeTasks w @ [r],
                           w_activeAgents := set_add (t_assignedAgent t) (w_activeAgents w)\<rparr>;
                    orc1 = put_workflow sid w1 orc
                in Done (send_call
                     \<lparr>rq_type = ''task_assignment'', rq_sessionId = sid,
                      rq_fromAgent = ''orchestrator'', rq_toAgent = Agent (t_assignedAgent t),
                      rq_payload = Some (no_payload\<lparr>p_task := Some t,
                        p_context := Some (''You are '' @ t_assignedAgent t @
                          ''. Complete the assigned task based on your specialization.'')\<rparr>),
                      rq_correlationId = Some (t_id t), rq_priority = Some (t_priority t),
                      rq_ttl = None\<rparr> orc1))))"

fun assign_all :: "string \<Rightarrow> nat list \<Rightarrow> orchestrator \<Rightarrow> orchestrator exec" where
  "assign_all sid [] orc = Done orc"
| "assign_all sid (r # rs) orc = exec_bind (assignTaskToAgent sid r orc) (assign_all sid rs)"

definition initiateImplementationPlanning ::
  "string \<Rightarrow> analysis_result \<Rightarrow> int \<Rightarrow> orchestrator \<Rightarrow> orchestrator exec" where
  "initiateImplementationPlanning sid analysisResult now orc =
     (case determineRequiredAgents (requirements analysisResult) (architecture analysisResult) of
        Inl e \<Rightarrow> Raised e orc
      | Inr neededAgents \<Rightarrow>
          (case createImplementationTasks sid now neededAgents [] orc of
             (Inl e, orc1) \<Rightarrow> Raised e orc1
           | (Inr refs, orc1) \<Rightarrow>
               exec_bind (assign_all sid refs orc1)
                 (\<lambda>orc2. case sessionWorkflows orc2 sid of
                            None \<Rightarrow> Raised TypeError orc2
                          | Some w \<Rightarrow>
                              Done (put_workflow sid (set_phase Implementation w) orc2))))"

definition handleTaskCompletion ::
  "string \<Rightarrow> string \<Rightarrow> payload option message \<Rightarrow> int \<Rightarrow> orchestrator \<Rightarrow> orchestrator exec" where
  "handleTaskCompletion sid agentId message now orc =
     (case payload message of
        None \<Rightarrow> Raised TypeError orc
      | Some p \<Rightarrow>
          (case sessionWorkflows orc sid of
             None \<Rightarrow> Raised TypeError orc
           | Some w \<Rightarrow>
               (case findIndex (has_id orc (p_taskId p)) (activeTasks w) of
                  None \<Rightarrow> Done orc
                | Some taskIndex \<Rightarrow>
                    (let r = activeTasks w ! taskIndex;
                         orc1 = update_task r
                           (\<lambda>t. t\<lparr>t_status := Some ''completed'', t_completedAt := Some now,
                                  t_result := p_result p, t_deliverables := p_deliverables p\<rparr>) orc;
                         w1 = w\<lparr>completedTasks := completedTasks w @ [r],
                                activeTasks := splice1 taskIndex (activeTasks w)\<rparr>;
                         orc2 = put_workflow sid w1 orc1
                     in if is_analysis orc2 r
                        then (case p_result p of
                                None \<Rightarrow> Raised TypeError orc2
                              | Some result \<Rightarrow>
                                  (let w2 = set_phase Planning
                                         (w1\<lparr>state_requirements := requirements result,
                                             state_architecture := architecture result\<rparr>);
                                       orc3 = put_workflow sid w2 orc2
                                   in initiateImplementationPlanning sid result now orc3))
                        else Done orc2))))"

definition handleTaskProgress ::
  "string \<Rightarrow> string \<Rightarrow> payload option message \<Rightarrow> int \<Rightarrow> orchestrator \<Rightarrow> orchestrator exec" where
  "handleTaskProgress sid agentId message now orc =
     (case payload message of
        None \<Rightarrow> Raised TypeError orc
      | Some p \<Rightarrow>
          (case sessionWorkflows orc sid of
             None \<Rightarrow> Raised TypeError orc
           | Some w \<Rightarrow>
               (case find (has_id orc (p_taskId p)) (activeTasks w) of
                  None \<Rightarrow> Done orc
                | Some r \<Rightarrow>
                    Done (update_task r
                      (\<lambda>t. t\<lparr>t_progress := p_progress p, t_status := p_status p,
                             t_lastUpdate := Some now\<rparr>) orc))))"

definition handleAgentQuestion ::
  "string \<Rightarrow> string \<Rightarrow> payload option message \<Rightarrow> int \<Rightarrow> orchestrator \<Rightarrow> orchestrator exec" where
  "handleAgentQuestion sid agentId message now orc =
     (case payload message of
        None \<Rightarrow> Raised TypeError orc
      | Some p \<Rightarrow>
          Done (send_call
            \<lparr>rq_type = ''user_clarification_needed'', rq_sessionId = sid,
             rq_fromAgent = ''orchestrator'', rq_toAgent = Agent ''user'',
             rq_payload = Some (no_payload\<lparr>p_question := p_question p, p_context := p_context p,
               p_urgency := p_urgency p, p_requestingAgent := Some agentId\<rparr>),
             rq_correlationId = None,
             rq_priority = Some (if p_urgency p = Some ''high'' then 8 else 5),
             rq_ttl = None\<rparr> orc))"

text \<open>
  \<^verbatim>\<open>findReplacementAgent(specialization, excludeAgent)\<close>: the first entry of the
  registry, in insertion order, with another id and the same specialization.
\<close>

fun findReplacementAgent :: "(string \<times> capability) list \<Rightarrow> string \<Rightarrow> string \<Rightarrow> string option" where
  "findReplacementAgent [] spec excludeAgent = None"
| "findReplacementAgent ((agentId, c) # rest) spec excludeAgent =
     (if agentId \<noteq> excludeAgent \<and> cap_specialization c = spec then Some agentId
      else findReplacementAgent rest spec excludeAgent)"

text \<open>
  \<^verbatim>\<open>reassignTask\<close>. The test \<^verbatim>\<open>if (replacementAgent)\<close> also rejects an empty id.
\<close>

definition reassignTask ::
  "string \<Rightarrow> string option \<Rightarrow> string \<Rightarrow> int \<Rightarrow> orchestrator \<Rightarrow> orchestrator exec" where
  "reassignTask sid taskId failedAgent now orc =
     (case sessionWorkflows orc sid of
        None \<Rightarrow> Raised TypeError orc
      | Some w \<Rightarrow>
          (case find (has_id orc taskId) (activeTasks w) of
             None \<Rightarrow> Done orc
           | Some r \<Rightarrow>
               (case map_of (agentCapabilities orc) failedAgent of
                  None \<Rightarrow> Raised TypeError orc
                | Some c \<Rightarrow>
                    (case findReplacementAgent (agentCapabilities orc) (cap_specialization c)
                            failedAgent of
                       None \<Rightarrow> Done orc
                     | Some replacementAgent \<Rightarrow>
                         if replacementAgent = [] then Done orc
                         else assignTaskToAgent sid r
                                (update_task r
                                   (\<lambda>t. t\<lparr>t_assignedAgent := replacementAgent,
                                          t_status := Some ''reassigned'',
                                          t_reassignedAt := Some now,
                                          t_previousAgent := Some failedAgent\<rparr>) orc)))))"

definition handleAgentError ::
  "string \<Rightarrow> string \<Rightarrow> payload option message \<Rightarrow> int \<Rightarrow> orchestrator \<Rightarrow> orchestrator exec" where
  "handleAgentError sid agentId message now orc =
     (case payload message of
        None \<Rightarrow> Raised TypeError orc
      | Some p \<Rightarrow>
          if p_severity p = Some ''critical''
          then reassignTask sid (p_taskId p) agentId now orc
          else Done orc)"

definition handleCollaborationRequest ::
  "string \<Rightarrow> string \<Rightarrow> payload option message \<Rightarrow> int \<Rightarrow> orchestrator \<Rightarrow> orchestrator exec" where
  "handleCollaborationRequest sid agentId message now orc =
     (case payload message of
        None \<Rightarrow> Raised TypeError orc
      | Some p \<Rightarrow>
          Done (send_call
            \<lparr>rq_type = ''collaboration_invitation'', rq_sessionId = sid,
             rq_fromAgent = agentId,
             rq_toAgent = (case p_targetAgent p of None \<Rightarrow> NoAgent | Some a \<Rightarrow> Agent a),
             rq_payload = Some (no_payload\<lparr>p_collaborationType := p_collaborationType p,
               p_context := p_context p, p_requestingAgent := Some agentId\<rparr>),
             rq_correlationId = None, rq_priority = Some 7, rq_ttl = None\<rparr> orc))"

text \<open>
  \<^verbatim>\<open>handleAgentMessage\<close>: the body runs inside \<^verbatim>\<open>try\<close>; an exception of a handler
  is logged and the changes made before it stay.
\<close>

definition handleAgentMessage ::
  "string \<Rightarrow> string \<Rightarrow> payload option message \<Rightarrow> int \<Rightarrow> orchestrator \<Rightarrow> orchestrator" where
  "handleAgentMessage sid agentId message now orc =
     (case sessionWorkflows orc sid of
        None \<Rightarrow> orc
      | Some w \<Rightarrow>
          (let agentKey = sid @ '':'' @ agentId;
               orc1 = (case activeAgents orc agentKey of
                         None \<Rightarrow> orc
                       | Some a \<Rightarrow>
                           orc\<lparr>activeAgents := (activeAgents orc)(agentKey \<mapsto> a\<lparr>lastSeen := now\<rparr>)\<rparr>);
               orc2 = put_workflow sid
                        (w\<lparr>messageHistory := messageHistory w @ [(message, now)]\<rparr>) orc1
           in exec_state
                (if msg_type message = ''task_completion''
                 then handleTaskCompletion sid agentId message now orc2
                 else if msg_type message = ''task_progress''
                 then handleTaskProgress sid agentId message now orc2
                 else if msg_type message = ''agent_question''
                 then handleAgentQuestion sid agentId message now orc2
                 else if msg_type message = ''error_report''
                 then handleAgentError sid agentId message now orc2
                 else if msg_type message = ''collaboration_request''
                 then handleCollaborationRequest sid agentId message now orc2
                 else Done orc2)))"

definition analysis_task :: "string \<Rightarrow> string \<Rightarrow> int \<Rightarrow> task" where
  "analysis_task taskId sid now =
     \<lparr>t_id = taskId, t_type = ''requirements_analysis'', t_sessionId = sid,
      t_assignedAgent = ''architectrix'', t_status = Some ''assigned'', t_priority = 10,
      t_dependencies = [], t_deadline = now + 300000, t_createdAt = now,
      t_completedAt = None, t_result = None, t_deliverables = JUndefined, t_progress = None,
      t_lastUpdate = None, t_reassignedAt = None, t_previousAgent = None\<rparr>"

text \<open>
  \<^verbatim>\<open>initiateRequirementsAnalysis\<close>: \<^verbatim>\<open>projectContext.existingFiles\<close> raises a
  TypeError when the project context is absent, before the task is pushed.
\<close>

definition initiateRequirementsAnalysis ::
  "string \<Rightarrow> string \<Rightarrow> project_context option \<Rightarrow> int \<Rightarrow> orchestrator \<Rightarrow> orchestrator exec" where
  "initiateRequirementsAnalysis sid userRequirement0 projectContext now orc =
     (case uuidv4 orc of (taskId, orc1) \<Rightarrow>
        (case projectContext of
           None \<Rightarrow> Raised TypeError orc1
         | Some ctx \<Rightarrow>
             (case new_task (analysis_task taskId sid now) orc1 of (r, orc2) \<Rightarrow>
                (case sessionWorkflows orc2 sid of
                   None \<Rightarrow> Raised TypeError orc2
                 | Some w \<Rightarrow>
                     (let w1 = w\<lparr>activeTasks := activeTasks w @ [r],
                                 w_activeAgents := set_add ''architectrix'' (w_activeAgents w)\<rparr>;
                          orc3 = put_workflow sid w1 orc2
                      in Done (send_call
                           \<lparr>rq_type = ''task_assignment'', rq_sessionId = sid,
                            rq_fromAgent = ''orchestrator'', rq_toAgent = Agent ''architectrix'',
                            rq_payload = Some (no_payload\<lparr>
                              p_task := Some (analysis_task taskId sid now),
                              p_context := Some ''You are Architectrix, a senior system architect. Analyze the user requirement and provide structured requirements, high-level architecture, and technology recommendations.''\<rparr>),
                            rq_correlationId = Some taskId, rq_priority = Some 10,
                            rq_ttl = None\<rparr> orc3))))))"

definition startSession ::
  "string \<Rightarrow> project_context option \<Rightarrow> string \<Rightarrow> int \<Rightarrow> orchestrator \<Rightarrow> orchestrator exec" where
  "startSession sid projectContext userRequirement0 now orc =
     (case uuidv4 orc of (wid, orc1) \<Rightarrow>
        (let workflow =
               \<lparr>w_id = wid, w_sessionId = sid, userRequirement = userRequirement0,
                w_status = ''planning'', startTime = now, endTime = None,
                currentPhase = Analysis, activeTasks = [], completedTasks = [],
                w_activeAgents = [], messageHistory = [],
                state_requirements = JStr userRequirement0, state_architecture = JUndefined,
                phaseTrace = [Analysis]\<rparr>;
             orc2 = put_workflow sid workflow orc1;
             orc3 = orc2\<lparr>workflowStates := (workflowStates orc2)(sid \<mapsto> ''active'')\<rparr>
         in initiateRequirementsAnalysis sid userRequirement0 projectContext now orc3))"

definition registerAgent :: "string \<Rightarrow> string \<Rightarrow> int \<Rightarrow> orchestrator \<Rightarrow> orchestrator exec" where
  "registerAgent sid agentId now orc =
     (case map_of (agentCapabilities orc) agentId of
        None \<Rightarrow> Raised (Error (''Unknown agent: '' @ agentId)) orc
      | Some c \<Rightarrow>
          Done (orc\<lparr>activeAgents := (activeAgents orc)(sid @ '':'' @ agentId \<mapsto>
                       \<lparr>ai_id = agentId, ai_sessionId = sid, ai_capabilities = c,
                        ai_status = ''active'', lastSeen = now, ai_metrics = (0, 0, 0)\<rparr>),
                     subscriptions := subscriptions orc @ [(sid, agentId)]\<rparr>))"

definition stopWorkflow :: "string \<Rightarrow> int \<Rightarrow> orchestrator \<Rightarrow> orchestrator" where
  "stopWorkflow sid now orc =
     (case sessionWorkflows orc sid of
        None \<Rightarrow> orc
      | Some w \<Rightarrow>
          (let orc1 = put_workflow sid (w\<lparr>w_status := ''stopped'', endTime := Some now\<rparr>) orc;
               orc2 = orc1\<lparr>activeAgents :=
                        foldl (\<lambda>m agentId. m(sid @ '':'' @ agentId := None)) (activeAgents orc1)
                          (w_activeAgents w)\<rparr>
           in orc2\<lparr>workflowStates := (workflowStates orc2)(sid \<mapsto> ''stopped'')\<rparr>))"

record workflow_status =
  ws_id :: string
  ws_sessionId :: string
  ws_status :: string
  ws_currentPhase :: phase
  ws_total :: nat
  ws_completed :: nat
  ws_active :: nat
  ws_activeAgents :: "string list"
  ws_startTime :: int
  ws_lastUpdate :: int

definition getWorkflowStatus :: "string \<Rightarrow> int \<Rightarrow> orchestrator \<Rightarrow> workflow_status option" where
  "getWorkflowStatus sid now orc =
     (case sessionWorkflows orc sid of
        None \<Rightarrow> None
      | Some w \<Rightarrow>
          Some \<lparr>ws_id = w_id w, ws_sessionId = sid, ws_status = w_status w,
                ws_currentPhase = currentPhase w,
                ws_total = length (activeTasks w) + length (completedTasks w),
                ws_completed = length (completedTasks w),
                ws_active = length (activeTasks w),
                ws_activeAgents = w_activeAgents w, ws_startTime = startTime w,
                ws_lastUpdate = now\<rparr>)"

text \<open>The calls the orchestrator receives, and a run of them from a new orchestrator.\<close>

datatype orchestrator_call =
    StartSession string "project_context option" string int
  | RegisterAgent string string int
  | HandleAgentMessage string string "payload option message" int
  | StopWorkflow string int

fun do_call :: "orchestrator \<Rightarrow> orchestrator_call \<Rightarrow> orchestrator" where
  "do_call orc (StartSession sid ctx req now) = exec_state (startSession sid ctx req now orc)"
| "do_call orc (RegisterAgent sid agentId now) = exec_state (registerAgent sid agentId now orc)"
| "do_call orc (HandleAgentMessage sid agentId message now) =
     handleAgentMessage sid agentId message now orc"
| "do_call orc (StopWorkflow sid now) = stopWorkflow sid now orc"

definition run_calls :: "(nat \<Rightarrow> string) \<Rightarrow> orchestrator_call list \<Rightarrow> orchestrator" where
  "run_calls src calls = foldl do_call (AgentOrchestrator_new src) calls"

section \<open>A2AService: the agents of a session\<close>

text \<open>
  \<^verbatim>\<open>this.agents\<close> holds the two agents that \<^verbatim>\<open>initializeAgents\<close> creates.
  \<open>service_requiredAgents\<close> is the set that \<^verbatim>\<open>determineRequiredAgents(workflow)\<close>
  builds from the lower-cased requirement, \<open>service_determineRequiredAgents\<close> its
  result, filtered to the agents the service has. The argument is
  \<^verbatim>\<open>workflow.userRequirement\<close>, the one field read.
\<close>

definition service_agents :: "string list" where
  "service_agents = [''architectrix'', ''code_conjurer'']"

definition service_requiredAgents :: "string \<Rightarrow> string list" where
  "service_requiredAgents userRequirement0 =
     (let requirement = toLowerCase userRequirement0;
          a0 = [''architectrix''];
          a1 = (if str_includes requirement ''code'' \<or> str_includes requirement ''implement''
                then set_add ''code_conjurer'' a0 else a0);
          a2 = (if str_includes requirement ''frontend'' \<or> str_includes requirement ''ui''
                then set_add ''frontend_developer'' a1 else a1);
          a3 = (if str_includes requirement ''backend'' \<or> str_includes requirement ''api''
                then set_add ''backend_developer'' a2 else a2);
          a4 = (if str_includes requirement ''api'' \<or> str_includes requirement ''endpoint''
                then set_add ''api_architect'' a3 else a3);
          a5 = (if str_includes requirement ''documentation'' \<or> str_includes requirement ''docs''
                then set_add ''technical_writer'' a4 else a4)
      in a5)"

definition service_determineRequiredAgents :: "string list \<Rightarrow> string \<Rightarrow> string list" where
  "service_determineRequiredAgents agents userRequirement0 =
     filter (\<lambda>agentId. agentId \<in> set agents) (service_requiredAgents userRequirement0)"

section \<open>A concrete request for the examples\<close>

definition demo_request :: "string send_request" where
  "demo_request =
     \<lparr>rq_type = ''task_assignment'', rq_sessionId = ''s1'', rq_fromAgent = ''orchestrator'',
      rq_toAgent = Agent ''architectrix'', rq_payload = ''analyse'',
      rq_correlationId = None, rq_priority = Some 0, rq_ttl = None\<rparr>"

definition always_fails :: "string message \<Rightarrow> bool" where
  "always_fails m = False"

text \<open>
  An orchestrator whose registry holds a second agent with the specialization of
  \<^verbatim>\<open>code_conjurer\<close>, with one session and one active task, and an error report for
  that task.
\<close>

definition demo_capability :: capability where
  "demo_capability =
     \<lparr>cap_specialization = ''code_generation'', cap_capabilities = [''code_writing''],
      preferredModels = [''gpt-4''], maxConcurrentTasks = 5, cap_averageResponseTime = 8000\<rparr>"

definition demo_task :: task where
  "demo_task = implementation_task ''t1'' demo_capability ''s1'' ''code_conjurer'' 0"

definition demo_workflow :: workflow where
  "demo_workflow =
     \<lparr>w_id = ''w1'', w_sessionId = ''s1'', userRequirement = ''write code'',
      w_status = ''planning'', startTime = 0, endTime = None,
      currentPhase = Implementation, activeTasks = [0], completedTasks = [],
      w_activeAgents = [''code_conjurer''], messageHistory = [],
      state_requirements = JStr ''write code'', state_architecture = JUndefined,
      phaseTrace = [Analysis, Planning, Implementation]\<rparr>"

definition demo_orchestrator :: orchestrator where
  "demo_orchestrator =
     (AgentOrchestrator_new (\<lambda>n. ''u''))
       \<lparr>agentCapabilities := initial_capabilities @ [(''code_conjurer_b'', demo_capability)],
        sessionWorkflows := [''s1'' \<mapsto> demo_workflow],
        tasks := [0 \<mapsto> demo_task], next_ref := 1\<rparr>"

definition demo_error :: "string \<Rightarrow> payload option message" where
  "demo_error severity =
     \<lparr>msg_id = ''m2'', timestamp = 1, msg_type = ''error_report'', sessionId = ''s1'',
      fromAgent = ''code_conjurer'', toAgent = Agent ''orchestrator'',
      payload = Some (no_payload\<lparr>p_error := Some ''failed'', p_severity := Some severity,
        p_taskId := Some ''t1''\<rparr>),
      correlationId = ''m2'', priority = 5, ttl = 300, status = ''sent'',
      retryCount = None, maxRetries = None\<rparr>"

text \<open>A session that is started and whose analysis task is then reported complete.\<close>

definition demo_src :: "nat \<Rightarrow> string" where
  "demo_src n = (if n = 0 then ''w1'' else if n = 1 then ''t1'' else ''t2'')"

definition demo_completion :: "payload option message" where
  "demo_completion =
     \<lparr>msg_id = ''m3'', timestamp = 1, msg_type = ''task_completion'', sessionId = ''s1'',
      fromAgent = ''architectrix'', toAgent = Agent ''orchestrator'',
      payload = Some (no_payload\<lparr>p_taskId := Some ''t1'',
        p_result := Some \<lparr>requirements = JStr ''a backend'', architecture = JUndefined\<rparr>\<rparr>),
      correlationId = ''t1'', priority = 5, ttl = 300, status = ''sent'',
      retryCount = None, maxRetries = None\<rparr>"

definition demo_calls :: "orchestrator_call list" where
  "demo_calls =
     [StartSession ''s1'' (Some \<lparr>existingFiles = None\<rparr>) ''a backend'' 0,
      HandleAgentMessage ''s1'' ''architectrix'' demo_completion 2]"

section \<open>Invariant of the orchestrator\<close>

text \<open>
  What every workflow of a reachable orchestrator satisfies: the trace of its phase is
  not empty, ends with the current phase and never steps back; its active tasks are
  allocated objects; and it has at most one active \<^verbatim>\<open>requirements_analysis\<close> task, and
  none once the phase has left \<^verbatim>\<open>analysis\<close>.
\<close>

definition analysis_count :: "orchestrator \<Rightarrow> workflow \<Rightarrow> nat" where
  "analysis_count orc w = length (filter (is_analysis orc) (activeTasks w))"

definition workflow_ok :: "orchestrator \<Rightarrow> workflow \<Rightarrow> bool" where
  "workflow_ok orc w \<longleftrightarrow>
     phaseTrace w \<noteq> [] \<and> last (phaseTrace w) = currentPhase w \<and>
     sorted (map phase_index (phaseTrace w)) \<and>
     (\<forall>r\<in>set (activeTasks w). r < next_ref orc) \<and>
     analysis_count orc w \<le> (if currentPhase w = Analysis then 1 else 0)"

text \<open>The phases from a given one on.\<close>

definition phases_from :: "phase \<Rightarrow> phase list" where
  "phases_from p = drop (phase_index p) phases"

definition orchestrator_ok :: "orchestrator \<Rightarrow> bool" where
  "orchestrator_ok orc \<longleftrightarrow>
     agentCapabilities orc = initial_capabilities \<and>
     (\<forall>sid w. sessionWorkflows orc sid = Some w \<longrightarrow> workflow_ok orc w)"

section \<open>Properties of BaseAgent\<close>

lemma starts_with_iff: "starts_with s p \<longleftrightarrow> prefix p s"
  by (induction s p rule: starts_with.induct) auto

lemma includes_iff: "str_includes s sub \<longleftrightarrow> sublist sub s"
proof (induction s)
  case Nil
  then show ?case by auto
next
  case (Cons c s)
  then show ?case
    by (cases sub) (auto simp: starts_with_iff sublist_Cons_right)
qed


text \<open>What \<open>updateMetrics\<close> computes: the count of completed tasks is exact, the error
  rate depends on the last outcome only.\<close>

lemma tasksCompleted_record:
  "tasksCompleted (foldl record_outcome m os) = tasksCompleted m + completed_seen os"
proof (induction os arbitrary: m)
  case Nil
  then show ?case by (simp add: completed_seen_def)
next
  case (Cons x xs)
  then show ?case
    by (cases x) (simp_all add: completed_seen_def updateMetrics_def Let_def)
qed

lemma errorRate_last:
  "errorRate (record_outcomes (os @ [x])) =
     (if x = Failed then 100 / of_nat (completed_seen os + 1) else 0)"
  by (cases x)
     (simp_all add: record_outcomes_def updateMetrics_def Let_def tasksCompleted_record
        initial_metrics_def)

text \<open>
  Claim C4. The claim gives \<open>errorRate = errors / (completed + errors)\<close> over all
  outcomes seen. After one failure followed by one success that ratio is 1/2, and the
  code has set \<open>errorRate\<close> to 0: \<open>errorCount\<close> is recomputed at each call from the
  current outcome alone.
\<close>

theorem errorRate_forgets_failures:
  "errorRate (record_outcomes [Failed, Completed 10]) = 0 \<and>
   (of_nat (errors_seen [Failed, Completed 10]) :: rat) /
     of_nat (completed_seen [Failed, Completed 10] + errors_seen [Failed, Completed 10]) = 1 / 2"
  by (simp add: record_outcomes_def updateMetrics_def Let_def initial_metrics_def
        errors_seen_def completed_seen_def)




section \<open>Properties of the message queues\<close>

lemma expired_retryCount [simp]: "expired t (m\<lparr>retryCount := x\<rparr>) = expired t m"
  by (simp add: expired_def messageAge_def)




lemma fire_timer_frame [simp]:
  "dlq (fire_timer t st) = dlq st" "handled (fire_timer t st) = handled st"
  "timers (fire_timer t st) = timers st"
  by (simp_all add: fire_timer_def xadd_def xack_def split: prod.splits)

lemma foldl_fire_frame [simp]:
  "dlq (foldl (\<lambda>s t. fire_timer t s) st ts) = dlq st"
  "handled (foldl (\<lambda>s t. fire_timer t s) st ts) = handled st"
  "timers (foldl (\<lambda>s t. fire_timer t s) st ts) = timers st"
  by (induction ts arbitrary: st) simp_all

lemma run_timers_frame [simp]:
  "dlq (run_timers t st) = dlq st" "handled (run_timers t st) = handled st"
  by (simp_all add: run_timers_def)

lemma schedule_ok_retryCount [simp]:
  "schedule_ok (m\<lparr>retryCount := x\<rparr>) k ts = schedule_ok m k ts"
  by (induction m k ts rule: schedule_ok.induct) simp_all











text \<open>
  Claim C2. A delivery attempted when the age of the message exceeds its ttl never calls
  the handler. The durable queue acknowledges the entry and schedules no retry and no
  dead letter; the simplified queue leaves its state as it is.
\<close>

theorem expired_message_not_handled:
  assumes "expired t1 m" and "streams st key = (e, m) # rest" and "e \<notin> set (pending st key)"
  shows "handled (consumer t1 handler key st) = handled st \<and>
         timers (consumer t1 handler key st) = timers st \<and>
         dlq (consumer t1 handler key st) = dlq st \<and>
         streams (consumer t1 handler key st) = (streams st)(key := rest) \<and>
         pending (consumer t1 handler key st) = pending st \<and>
         on_message t1 handler m ps = ps"
proof -
  have "removeAll e (pending st key @ [e]) = pending st key"
    using assms(3) by simp
  then have "(pending st)(key := removeAll e (pending st key @ [e])) = pending st"
    by simp
  then show ?thesis
    using assms(1,2) by (simp add: consumer_def xreadgroup_def xack_def on_message_def)
qed

theorem expired_message_not_handled_witness:
  "expired 300001 (enrichedMessage ''m1'' 0 demo_request) \<and>
   handled (consumer 300001 (Some always_fails) ''a2a:s1:architectrix''
     (snd (sendMessage ''m1'' 0 demo_request empty_mq))) = [] \<and>
   on_message 300001 (Some always_fails) (enrichedMessage ''m1'' 0 demo_request) empty_pubsub =
     empty_pubsub"
proof -
  let ?m = "enrichedMessage ''m1'' 0 demo_request"
  let ?st = "snd (sendMessage ''m1'' 0 demo_request empty_mq)"
  have h1: "expired 300001 ?m"
    by (simp add: expired_def messageAge_def enrichedMessage_def demo_request_def or_num_def)
  have h2: "streams ?st ''a2a:s1:architectrix'' = (0, ?m) # []"
    by (simp add: sendMessage_def demo_request_def empty_mq_def xadd_def stream_key_def Let_def)
  have h3: "0 \<notin> set (pending ?st ''a2a:s1:architectrix'')"
    by (simp add: sendMessage_def demo_request_def empty_mq_def xadd_def stream_key_def Let_def)
  have h0: "handled ?st = []"
    by (simp add: sendMessage_def demo_request_def empty_mq_def xadd_def stream_key_def Let_def)
  show ?thesis
    using expired_message_not_handled [OF h1 h2 h3, of "Some always_fails" empty_pubsub] h1 h0
    by simp
qed








section \<open>Properties of agent selection\<close>

text \<open>
  Claim C5, as stated, fails: for the requirement \<^verbatim>\<open>create an api\<close> the orchestrator
  derives three agents, the session-start rule returns the architect alone.
\<close>

theorem required_agents_differ:
  "determineRequiredAgents (JStr ''create an api'') JUndefined =
     Inr [''backend_developer'', ''api_architect'', ''code_conjurer''] \<and>
   service_determineRequiredAgents service_agents ''create an api'' = [''architectrix'']"
  by code_simp

lemma set_set_add [simp]: "set (set_add x xs) = insert x (set xs)"
  by (auto simp: set_add_def)

lemma mem_if_set_add:
  "a \<in> set (if c then set_add x xs else xs) \<longleftrightarrow> (c \<and> a = x) \<or> a \<in> set xs"
  by auto


lemma orchestrator_agents_total: "\<exists>as. determineRequiredAgents (JStr r) arch = Inr as"
  by (simp add: determineRequiredAgents_def Let_def)

lemma orchestrator_agents_mem:
  assumes "determineRequiredAgents (JStr r) arch = Inr as"
  shows "a \<in> set as \<longleftrightarrow>
     a = ''code_conjurer'' \<or>
     ((str_includes r ''documentation'' \<or> str_includes r ''docs'') \<and> a = ''technical_writer'') \<or>
     ((str_includes r ''api'' \<or> str_includes r ''endpoints'') \<and> a = ''api_architect'') \<or>
     ((str_includes r ''backend'' \<or> str_includes r ''api'') \<and> a = ''backend_developer'') \<or>
     (a = ''frontend_developer'' \<and> (str_includes r ''frontend'' \<or> str_includes r ''ui''))"
proof -
  have "Inr as = determineRequiredAgents (JStr r) arch" using assms by simp
  then show ?thesis
    unfolding determineRequiredAgents_def Let_def
    by (simp add: mem_if_set_add split del: if_split cong: if_cong)
qed

lemma service_agents_mem:
  "a \<in> set (service_requiredAgents r) \<longleftrightarrow>
     ((str_includes (toLowerCase r) ''documentation'' \<or> str_includes (toLowerCase r) ''docs'') \<and>
        a = ''technical_writer'') \<or>
     ((str_includes (toLowerCase r) ''api'' \<or> str_includes (toLowerCase r) ''endpoint'') \<and>
        a = ''api_architect'') \<or>
     ((str_includes (toLowerCase r) ''backend'' \<or> str_includes (toLowerCase r) ''api'') \<and>
        a = ''backend_developer'') \<or>
     ((str_includes (toLowerCase r) ''frontend'' \<or> str_includes (toLowerCase r) ''ui'') \<and>
        a = ''frontend_developer'') \<or>
     ((str_includes (toLowerCase r) ''code'' \<or> str_includes (toLowerCase r) ''implement'') \<and>
        a = ''code_conjurer'') \<or>
     a = ''architectrix''"
  unfolding service_requiredAgents_def Let_def
  by (simp add: mem_if_set_add split del: if_split cong: if_cong)


text \<open>
  Claim C5, amended. The two rules differ on every requirement: the orchestrator's set
  always holds \<^verbatim>\<open>code_conjurer\<close> and never \<^verbatim>\<open>architectrix\<close>, the session-start rule
  always returns \<^verbatim>\<open>architectrix\<close> and only agents the service has. On a lower-case
  requirement the keyword tests the two share agree: \<^verbatim>\<open>frontend_developer\<close>,
  \<^verbatim>\<open>backend_developer\<close> and \<^verbatim>\<open>technical_writer\<close> are in the orchestrator's set
  exactly when the session-start rule selects them before its filter.
\<close>

theorem required_agents_rules:
  "\<exists>as. determineRequiredAgents (JStr r) arch = Inr as \<and>
     ''code_conjurer'' \<in> set as \<and> ''architectrix'' \<notin> set as \<and>
     ''architectrix'' \<in> set (service_determineRequiredAgents service_agents r) \<and>
     set (service_determineRequiredAgents service_agents r) \<subseteq> set service_agents \<and>
     (toLowerCase r = r \<longrightarrow>
        (\<forall>a\<in>{''frontend_developer'', ''backend_developer'', ''technical_writer''}.
           a \<in> set as \<longleftrightarrow> a \<in> set (service_requiredAgents r)))"
proof -
  from orchestrator_agents_total [of r arch]
  obtain as where as: "determineRequiredAgents (JStr r) arch = Inr as" ..
  note sas = orchestrator_agents_mem [OF as]
  have c1: "''code_conjurer'' \<in> set as" by (simp add: sas)
  have c2: "''architectrix'' \<notin> set as" by (simp add: sas)
  have c3: "''architectrix'' \<in> set (service_determineRequiredAgents service_agents r)"
    by (simp add: service_determineRequiredAgents_def service_agents_mem service_agents_def)
  have c4: "set (service_determineRequiredAgents service_agents r) \<subseteq> set service_agents"
    by (auto simp: service_determineRequiredAgents_def)
  have c5: "\<forall>a\<in>{''frontend_developer'', ''backend_developer'', ''technical_writer''}.
           a \<in> set as \<longleftrightarrow> a \<in> set (service_requiredAgents r)" if "toLowerCase r = r"
    by (simp add: sas service_agents_mem that)
  show ?thesis
  proof (rule exI [of _ as], intro conjI impI)
    show "determineRequiredAgents (JStr r) arch = Inr as" by (rule as)
    show "''code_conjurer'' \<in> set as" by (rule c1)
    show "''architectrix'' \<notin> set as" by (rule c2)
    show "''architectrix'' \<in> set (service_determineRequiredAgents service_agents r)" by (rule c3)
    show "set (service_determineRequiredAgents service_agents r) \<subseteq> set service_agents"
      by (rule c4)
    show "\<forall>a\<in>{''frontend_developer'', ''backend_developer'', ''technical_writer''}.
           a \<in> set as \<longleftrightarrow> a \<in> set (service_requiredAgents r)" if "toLowerCase r = r"
      using that by (rule c5)
  qed
qed

theorem required_agents_rules_witness:
  "toLowerCase ''create an api'' = ''create an api'' \<and>
   ''backend_developer'' \<in> set (service_requiredAgents ''create an api'')"
proof -
  have lc: "toLowerCase ''create an api'' = ''create an api''" by code_simp
  have o: "determineRequiredAgents (JStr ''create an api'') JUndefined =
     Inr [''backend_developer'', ''api_architect'', ''code_conjurer'']"
    by code_simp
  from required_agents_rules [of "''create an api''" JUndefined]
  obtain as where 1: "determineRequiredAgents (JStr ''create an api'') JUndefined = Inr as"
    and 2: "toLowerCase ''create an api'' = ''create an api'' \<longrightarrow>
        (\<forall>a\<in>{''frontend_developer'', ''backend_developer'', ''technical_writer''}.
           a \<in> set as \<longleftrightarrow> a \<in> set (service_requiredAgents ''create an api''))"
    by (elim exE conjE)
  have as: "as = [''backend_developer'', ''api_architect'', ''code_conjurer'']"
    using 1 o by simp
  have "''backend_developer'' \<in> set as \<longleftrightarrow>
        ''backend_developer'' \<in> set (service_requiredAgents ''create an api'')"
    using 2 lc by simp
  then show ?thesis using lc as by simp
qed


section \<open>Properties of the orchestrator: reassignment\<close>

lemma findReplacementAgent_first:
  assumes "caps = pre @ (B, cB) # post"
    and "\<forall>(a, c)\<in>set pre. a = A \<or> cap_specialization c \<noteq> spec"
    and "B \<noteq> A" and "cap_specialization cB = spec"
  shows "findReplacementAgent caps spec A = Some B"
  unfolding assms(1) using assms(2,3,4)
  by (induction pre) auto

lemma find_has_id:
  "find (has_id orc tid) rs = Some r \<Longrightarrow> \<exists>t. tasks orc r = Some t \<and> Some (t_id t) = tid"
  by (auto simp: find_Some_iff has_id_def split: option.splits)

lemma has_id_cong: "tasks orc' = tasks orc \<Longrightarrow> has_id orc' = has_id orc"
  by (intro ext) (simp add: has_id_def)

lemma reassign_effect:
  assumes wf: "sessionWorkflows orc sid = Some w"
    and ty: "msg_type message = ''error_report''"
    and pl: "payload message = Some p"
    and sev: "p_severity p = Some ''critical''"
    and fnd: "find (has_id orc (p_taskId p)) (activeTasks w) = Some r"
    and tsk: "tasks orc r = Some T"
    and capA: "map_of (agentCapabilities orc) A = Some cA"
    and frst: "findReplacementAgent (agentCapabilities orc) (cap_specialization cA) A = Some B"
    and ne: "B \<noteq> []"
    and T': "T' = T\<lparr>t_assignedAgent := B, t_status := Some ''reassigned'',
                     t_reassignedAt := Some now, t_previousAgent := Some A\<rparr>"
    and orc': "orc' = handleAgentMessage sid A message now orc"
  shows "tasks orc' = (tasks orc)(r \<mapsto> T')"
    and "sent orc' = sent orc @
           [\<lparr>rq_type = ''task_assignment'', rq_sessionId = sid,
             rq_fromAgent = ''orchestrator'', rq_toAgent = Agent B,
             rq_payload = Some (no_payload\<lparr>p_task := Some T',
               p_context := Some (''You are '' @ B @
                 ''. Complete the assigned task based on your specialization.'')\<rparr>),
             rq_correlationId = Some (t_id T), rq_priority = Some (t_priority T),
             rq_ttl = None\<rparr>]"
    and "sessionWorkflows orc' sid =
           Some (w\<lparr>messageHistory := messageHistory w @ [(message, now)],
                   activeTasks := activeTasks w @ [r],
                   w_activeAgents := set_add B (w_activeAgents w)\<rparr>)"
    and "next_ref orc' = next_ref orc"
proof -
  define orc1 where "orc1 = (case activeAgents orc (sid @ '':'' @ A) of
                         None \<Rightarrow> orc
                       | Some a \<Rightarrow>
                           orc\<lparr>activeAgents := (activeAgents orc)(sid @ '':'' @ A \<mapsto> a\<lparr>lastSeen := now\<rparr>)\<rparr>)"
  define orc2 where "orc2 = put_workflow sid
                        (w\<lparr>messageHistory := messageHistory w @ [(message, now)]\<rparr>) orc1"
  have o1: "tasks orc1 = tasks orc" "sent orc1 = sent orc" "next_ref orc1 = next_ref orc"
    "agentCapabilities orc1 = agentCapabilities orc" "sessionWorkflows orc1 = sessionWorkflows orc"
    by (simp_all add: orc1_def split: option.splits)
  have o2: "tasks orc2 = tasks orc" "sent orc2 = sent orc" "next_ref orc2 = next_ref orc"
    "agentCapabilities orc2 = agentCapabilities orc"
    "sessionWorkflows orc2 sid = Some (w\<lparr>messageHistory := messageHistory w @ [(message, now)]\<rparr>)"
    by (simp_all add: orc2_def put_workflow_def o1)
  have hid: "has_id orc2 = has_id orc" by (rule has_id_cong) (rule o2(1))
  have step: "orc' = exec_state (handleAgentError sid A message now orc2)"
    unfolding orc' handleAgentMessage_def using wf ty
    by (simp add: Let_def orc1_def orc2_def cong: option.case_cong)
  have res: "handleAgentError sid A message now orc2 =
      assignTaskToAgent sid r (update_task r
                                   (\<lambda>t. t\<lparr>t_assignedAgent := B,
                                          t_status := Some ''reassigned'',
                                          t_reassignedAt := Some now,
                                          t_previousAgent := Some A\<rparr>) orc2)"
    by (simp add: handleAgentError_def pl sev reassignTask_def o2 hid fnd capA frst ne)
  show "tasks orc' = (tasks orc)(r \<mapsto> T')"
    by (simp add: step res assignTaskToAgent_def update_task_def o2 tsk put_workflow_def
          send_call_def Let_def T')
  show "sent orc' = sent orc @
           [\<lparr>rq_type = ''task_assignment'', rq_sessionId = sid,
             rq_fromAgent = ''orchestrator'', rq_toAgent = Agent B,
             rq_payload = Some (no_payload\<lparr>p_task := Some T',
               p_context := Some (''You are '' @ B @
                 ''. Complete the assigned task based on your specialization.'')\<rparr>),
             rq_correlationId = Some (t_id T), rq_priority = Some (t_priority T),
             rq_ttl = None\<rparr>]"
    by (simp add: step res assignTaskToAgent_def update_task_def o2 tsk put_workflow_def
          send_call_def Let_def T')
  show "sessionWorkflows orc' sid =
           Some (w\<lparr>messageHistory := messageHistory w @ [(message, now)],
                   activeTasks := activeTasks w @ [r],
                   w_activeAgents := set_add B (w_activeAgents w)\<rparr>)"
    by (simp add: step res assignTaskToAgent_def update_task_def o2 tsk put_workflow_def
          send_call_def Let_def T')
  show "next_ref orc' = next_ref orc"
    by (simp add: step res assignTaskToAgent_def update_task_def o2 tsk put_workflow_def
          send_call_def Let_def T')
qed


lemma noncritical_effect:
  assumes wf: "sessionWorkflows orc sid = Some w"
    and ty: "msg_type message = ''error_report''"
    and pl: "payload message = Some p"
    and sev: "p_severity p \<noteq> Some ''critical''"
    and orc': "orc' = handleAgentMessage sid A message now orc"
  shows "tasks orc' = tasks orc" and "sent orc' = sent orc"
    and "sessionWorkflows orc' sid =
           Some (w\<lparr>messageHistory := messageHistory w @ [(message, now)]\<rparr>)"
  unfolding orc' handleAgentMessage_def using wf ty pl sev
  by (simp_all add: Let_def handleAgentError_def put_workflow_def split: option.splits)

text \<open>
  Claim C6. The orchestrator handles an \<^verbatim>\<open>error_report\<close> received for agent \<open>A\<close> in a
  session with a workflow. If the severity is \<^verbatim>\<open>critical\<close>, \<open>T\<close> is the first active
  task with the reported id, and \<open>B\<close> is the first agent of the registry, other than
  \<open>A\<close>, with the specialization of \<open>A\<close>, then afterwards \<open>T\<close> has
  \<^verbatim>\<open>assignedAgent = B\<close>, \<^verbatim>\<open>status = reassigned\<close> and \<^verbatim>\<open>previousAgent = A\<close>, no
  other task has changed, and exactly one message has been sent, a
  \<^verbatim>\<open>task_assignment\<close> to \<open>B\<close>. With any other severity no task changes and nothing
  is sent; only the message history of the workflow grows.
\<close>

theorem critical_error_reassigns:
  assumes "sessionWorkflows orc sid = Some w"
    and "msg_type message = ''error_report''"
    and "payload message = Some p"
  shows
   "(p_severity p = Some ''critical'' \<and>
     find (has_id orc (p_taskId p)) (activeTasks w) = Some r \<and> tasks orc r = Some T \<and>
     map_of (agentCapabilities orc) A = Some cA \<and>
     agentCapabilities orc = pre @ (B, cB) # post \<and>
     (\<forall>(a, c)\<in>set pre. a = A \<or> cap_specialization c \<noteq> cap_specialization cA) \<and>
     B \<noteq> A \<and> B \<noteq> [] \<and> cap_specialization cB = cap_specialization cA \<longrightarrow>
       tasks (handleAgentMessage sid A message now orc) =
         (tasks orc)(r \<mapsto> T\<lparr>t_assignedAgent := B, t_status := Some ''reassigned'',
                                t_reassignedAt := Some now, t_previousAgent := Some A\<rparr>) \<and>
       sent (handleAgentMessage sid A message now orc) = sent orc @
           [\<lparr>rq_type = ''task_assignment'', rq_sessionId = sid,
             rq_fromAgent = ''orchestrator'', rq_toAgent = Agent B,
             rq_payload = Some (no_payload\<lparr>
               p_task := Some (T\<lparr>t_assignedAgent := B, t_status := Some ''reassigned'',
                                 t_reassignedAt := Some now, t_previousAgent := Some A\<rparr>),
               p_context := Some (''You are '' @ B @
                 ''. Complete the assigned task based on your specialization.'')\<rparr>),
             rq_correlationId = Some (t_id T), rq_priority = Some (t_priority T),
             rq_ttl = None\<rparr>]) \<and>
    (p_severity p \<noteq> Some ''critical'' \<longrightarrow>
       tasks (handleAgentMessage sid A message now orc) = tasks orc \<and>
       sent (handleAgentMessage sid A message now orc) = sent orc \<and>
       sessionWorkflows (handleAgentMessage sid A message now orc) sid =
         Some (w\<lparr>messageHistory := messageHistory w @ [(message, now)]\<rparr>))"
proof (intro conjI impI)
  assume h: "p_severity p = Some ''critical'' \<and>
     find (has_id orc (p_taskId p)) (activeTasks w) = Some r \<and> tasks orc r = Some T \<and>
     map_of (agentCapabilities orc) A = Some cA \<and>
     agentCapabilities orc = pre @ (B, cB) # post \<and>
     (\<forall>(a, c)\<in>set pre. a = A \<or> cap_specialization c \<noteq> cap_specialization cA) \<and>
     B \<noteq> A \<and> B \<noteq> [] \<and> cap_specialization cB = cap_specialization cA"
  then have sev: "p_severity p = Some ''critical''"
    and fnd: "find (has_id orc (p_taskId p)) (activeTasks w) = Some r"
    and tsk: "tasks orc r = Some T"
    and capA: "map_of (agentCapabilities orc) A = Some cA"
    and reg: "agentCapabilities orc = pre @ (B, cB) # post"
    and fst: "\<forall>(a, c)\<in>set pre. a = A \<or> cap_specialization c \<noteq> cap_specialization cA"
    and ne: "B \<noteq> A" "B \<noteq> []" and spec: "cap_specialization cB = cap_specialization cA"
    by blast+
  have frst: "findReplacementAgent (agentCapabilities orc) (cap_specialization cA) A = Some B"
    by (rule findReplacementAgent_first [OF reg fst ne(1) spec])
  note eff = reassign_effect [OF assms(1,2,3) sev fnd tsk capA frst ne(2) refl refl]
  show "tasks (handleAgentMessage sid A message now orc) =
         (tasks orc)(r \<mapsto> T\<lparr>t_assignedAgent := B, t_status := Some ''reassigned'',
                                t_reassignedAt := Some now, t_previousAgent := Some A\<rparr>)"
    by (rule eff(1))
  show "sent (handleAgentMessage sid A message now orc) = sent orc @
           [\<lparr>rq_type = ''task_assignment'', rq_sessionId = sid,
             rq_fromAgent = ''orchestrator'', rq_toAgent = Agent B,
             rq_payload = Some (no_payload\<lparr>
               p_task := Some (T\<lparr>t_assignedAgent := B, t_status := Some ''reassigned'',
                                 t_reassignedAt := Some now, t_previousAgent := Some A\<rparr>),
               p_context := Some (''You are '' @ B @
                 ''. Complete the assigned task based on your specialization.'')\<rparr>),
             rq_correlationId = Some (t_id T), rq_priority = Some (t_priority T),
             rq_ttl = None\<rparr>]"
    by (rule eff(2))
next
  assume "p_severity p \<noteq> Some ''critical''"
  from noncritical_effect(1) [OF assms this refl]
  show "tasks (handleAgentMessage sid A message now orc) = tasks orc" .
next
  assume "p_severity p \<noteq> Some ''critical''"
  from noncritical_effect(2) [OF assms this refl]
  show "sent (handleAgentMessage sid A message now orc) = sent orc" .
next
  assume "p_severity p \<noteq> Some ''critical''"
  from noncritical_effect(3) [OF assms this refl]
  show "sessionWorkflows (handleAgentMessage sid A message now orc) sid =
         Some (w\<lparr>messageHistory := messageHistory w @ [(message, now)]\<rparr>)" .
qed


lemma demo_facts:
  "sessionWorkflows demo_orchestrator ''s1'' = Some demo_workflow"
  "msg_type (demo_error sv) = ''error_report''"
  "payload (demo_error sv) = Some (no_payload\<lparr>p_error := Some ''failed'', p_severity := Some sv,
        p_taskId := Some ''t1''\<rparr>)"
  "find (has_id demo_orchestrator (Some ''t1'')) (activeTasks demo_workflow) = Some 0"
  "tasks demo_orchestrator 0 = Some demo_task"
  "agentCapabilities demo_orchestrator =
     initial_capabilities @ (''code_conjurer_b'', demo_capability) # []"
  "cap_specialization demo_capability = ''code_generation''"
  by (simp_all add: demo_orchestrator_def demo_workflow_def demo_error_def demo_task_def
        AgentOrchestrator_new_def has_id_def implementation_task_def demo_capability_def)

lemma demo_registry:
  "\<exists>cA. map_of (agentCapabilities demo_orchestrator) ''code_conjurer'' = Some cA \<and>
        cap_specialization cA = ''code_generation''"
  "\<forall>(a, c)\<in>set initial_capabilities.
     a = ''code_conjurer'' \<or> cap_specialization c \<noteq> ''code_generation''"
  by (simp_all add: demo_orchestrator_def AgentOrchestrator_new_def initial_capabilities_def)

theorem critical_error_reassigns_witness:
  "tasks (handleAgentMessage ''s1'' ''code_conjurer'' (demo_error ''critical'') 5
       demo_orchestrator) 0 =
     Some (demo_task\<lparr>t_assignedAgent := ''code_conjurer_b'', t_status := Some ''reassigned'',
             t_reassignedAt := Some 5, t_previousAgent := Some ''code_conjurer''\<rparr>) \<and>
   tasks (handleAgentMessage ''s1'' ''code_conjurer'' (demo_error ''low'') 5 demo_orchestrator) =
     tasks demo_orchestrator"
proof -
  obtain cA where cA: "map_of (agentCapabilities demo_orchestrator) ''code_conjurer'' = Some cA"
    and sp: "cap_specialization cA = ''code_generation''"
    using demo_registry(1) by (elim exE conjE)
  let ?p = "\<lambda>sv. no_payload\<lparr>p_error := Some ''failed'', p_severity := Some sv,
        p_taskId := Some ''t1''\<rparr>"
  have hyp: "p_severity (?p ''critical'') = Some ''critical'' \<and>
     find (has_id demo_orchestrator (p_taskId (?p ''critical''))) (activeTasks demo_workflow) =
       Some 0 \<and>
     tasks demo_orchestrator 0 = Some demo_task \<and>
     map_of (agentCapabilities demo_orchestrator) ''code_conjurer'' = Some cA \<and>
     agentCapabilities demo_orchestrator =
       initial_capabilities @ (''code_conjurer_b'', demo_capability) # [] \<and>
     (\<forall>(a, c)\<in>set initial_capabilities.
        a = ''code_conjurer'' \<or> cap_specialization c \<noteq> cap_specialization cA) \<and>
     ''code_conjurer_b'' \<noteq> ''code_conjurer'' \<and> ''code_conjurer_b'' \<noteq> [] \<and>
     cap_specialization demo_capability = cap_specialization cA"
    using demo_facts(4,5,6,7) cA demo_registry(2) by (simp add: sp)
  have a: "tasks (handleAgentMessage ''s1'' ''code_conjurer'' (demo_error ''critical'') 5
       demo_orchestrator) =
         (tasks demo_orchestrator)(0 \<mapsto> demo_task\<lparr>t_assignedAgent := ''code_conjurer_b'',
             t_status := Some ''reassigned'',
             t_reassignedAt := Some 5, t_previousAgent := Some ''code_conjurer''\<rparr>)"
    using critical_error_reassigns [OF demo_facts(1,2,3),
        where r = 0 and T = demo_task and A = "''code_conjurer''" and cA = cA
          and pre = initial_capabilities and B = "''code_conjurer_b''" and cB = demo_capability
          and post = "[]" and now = 5 and sv1 = "''critical''"] hyp
    by blast
  have low: "p_severity (?p ''low'') \<noteq> Some ''critical''" by simp
  have b: "tasks (handleAgentMessage ''s1'' ''code_conjurer'' (demo_error ''low'') 5
       demo_orchestrator) = tasks demo_orchestrator"
    using critical_error_reassigns [OF demo_facts(1,2,3),
        where r = 0 and T = demo_task and A = "''code_conjurer''" and cA = cA
          and pre = initial_capabilities and B = "''code_conjurer_b''" and cB = demo_capability
          and post = "[]" and now = 5 and sv1 = "''low''"] low
    by blast
  show ?thesis using a b by simp
qed

text \<open>
  Claim C10. Under the hypotheses of a critical reassignment, the reference of the
  task is appended to \<^verbatim>\<open>activeTasks\<close> while its earlier entry stays: the array holds
  one more entry for the task (two when it held one), no task object is created, and
  the active and total counts of \<^verbatim>\<open>getWorkflowStatus\<close> grow by one.
\<close>

theorem reassignment_duplicates_active_entry:
  assumes "sessionWorkflows orc sid = Some w"
    and "msg_type message = ''error_report''"
    and "payload message = Some p"
    and "p_severity p = Some ''critical''"
    and "find (has_id orc (p_taskId p)) (activeTasks w) = Some r"
    and "tasks orc r = Some T"
    and "map_of (agentCapabilities orc) A = Some cA"
    and "agentCapabilities orc = pre @ (B, cB) # post"
    and "\<forall>(a, c)\<in>set pre. a = A \<or> cap_specialization c \<noteq> cap_specialization cA"
    and "B \<noteq> A" and "B \<noteq> []" and "cap_specialization cB = cap_specialization cA"
  shows "\<exists>w' s s'.
     sessionWorkflows (handleAgentMessage sid A message now orc) sid = Some w' \<and>
     r \<in> set (activeTasks w) \<and>
     activeTasks w' = activeTasks w @ [r] \<and>
     count_list (activeTasks w') r = count_list (activeTasks w) r + 1 \<and>
     (count_list (activeTasks w) r = 1 \<longrightarrow> count_list (activeTasks w') r = 2) \<and>
     completedTasks w' = completedTasks w \<and>
     next_ref (handleAgentMessage sid A message now orc) = next_ref orc \<and>
     getWorkflowStatus sid t0 orc = Some s \<and>
     getWorkflowStatus sid t1 (handleAgentMessage sid A message now orc) = Some s' \<and>
     ws_active s' = ws_active s + 1 \<and> ws_total s' = ws_total s + 1 \<and>
     ws_completed s' = ws_completed s"
proof -
  have frst: "findReplacementAgent (agentCapabilities orc) (cap_specialization cA) A = Some B"
    by (rule findReplacementAgent_first [OF assms(8,9,10,12)])
  note eff = reassign_effect [OF assms(1-7) frst assms(11) refl refl]
  have mem: "r \<in> set (activeTasks w)"
    using assms(5) by (auto simp: find_Some_iff)
  show ?thesis
    using eff(3,4) mem assms(1) by (simp add: getWorkflowStatus_def)
qed

theorem reassignment_duplicates_active_entry_witness:
  "count_list (activeTasks demo_workflow) 0 = 1 \<and>
   (\<exists>w'. sessionWorkflows (handleAgentMessage ''s1'' ''code_conjurer'' (demo_error ''critical'') 5
       demo_orchestrator) ''s1'' = Some w' \<and> activeTasks w' = [0, 0])"
proof -
  obtain cA where cA: "map_of (agentCapabilities demo_orchestrator) ''code_conjurer'' = Some cA"
    and sp: "cap_specialization cA = ''code_generation''"
    using demo_registry(1) by (elim exE conjE)
  let ?p = "no_payload\<lparr>p_error := Some ''failed'', p_severity := Some ''critical'',
        p_taskId := Some ''t1''\<rparr>"
  have c: "count_list (activeTasks demo_workflow) 0 = 1" "activeTasks demo_workflow = [0]"
    by (simp_all add: demo_workflow_def)
  have h4: "p_severity ?p = Some ''critical''" by simp
  have h5: "find (has_id demo_orchestrator (p_taskId ?p)) (activeTasks demo_workflow) = Some 0"
    using demo_facts(4) by simp
  have h9: "\<forall>(a, c)\<in>set initial_capabilities.
        a = ''code_conjurer'' \<or> cap_specialization c \<noteq> cap_specialization cA"
    using demo_registry(2) by (simp add: sp)
  have h10: "''code_conjurer_b'' \<noteq> ''code_conjurer''" and h11: "''code_conjurer_b'' \<noteq> []"
    by simp_all
  have h12: "cap_specialization demo_capability = cap_specialization cA"
    using demo_facts(7) sp by simp
  from reassignment_duplicates_active_entry [OF demo_facts(1,2,3) h4 h5 demo_facts(5) cA
      demo_facts(6) h9 h10 h11 h12, of 5 0 0]
  show ?thesis using c by auto
qed



section \<open>Properties of the orchestrator: the phase of a workflow\<close>

lemma impl_not_analysis: "s @ ''_implementation'' \<noteq> ''requirements_analysis''"
proof
  assume "s @ ''_implementation'' = ''requirements_analysis''"
  then have "last (s @ ''_implementation'') = last ''requirements_analysis''" by simp
  then show False by simp
qed

lemma no_replacement:
  "map_of initial_capabilities a = Some c \<Longrightarrow>
   findReplacementAgent initial_capabilities (cap_specialization c) a = None"
  by (auto simp: initial_capabilities_def split: if_splits)

lemma workflow_ok_cong:
  assumes "tasks orc' = tasks orc" "next_ref orc' = next_ref orc"
  shows "workflow_ok orc' w = workflow_ok orc w"
proof -
  have "is_analysis orc' = is_analysis orc"
    by (intro ext) (simp add: is_analysis_def assms)
  then show ?thesis by (simp add: workflow_ok_def analysis_count_def assms)
qed

lemma orchestrator_ok_cong:
  assumes "tasks orc' = tasks orc" "next_ref orc' = next_ref orc"
    "agentCapabilities orc' = agentCapabilities orc"
    "sessionWorkflows orc' = sessionWorkflows orc"
  shows "orchestrator_ok orc' = orchestrator_ok orc"
  by (simp add: orchestrator_ok_def assms workflow_ok_cong [OF assms(1,2)])

text \<open>A later store: nothing allocated has changed its kind.\<close>
lemma workflow_ok_extend:
  assumes "workflow_ok orc w" "next_ref orc \<le> next_ref orc'"
    and "\<forall>r<next_ref orc. is_analysis orc' r = is_analysis orc r"
  shows "workflow_ok orc' w"
proof -
  have "filter (is_analysis orc') (activeTasks w) = filter (is_analysis orc) (activeTasks w)"
    using assms by (intro filter_cong) (auto simp: workflow_ok_def)
  then show ?thesis using assms by (auto simp: workflow_ok_def analysis_count_def)
qed

lemma orchestrator_ok_extend:
  assumes "orchestrator_ok orc" "next_ref orc \<le> next_ref orc'"
    and "\<forall>r<next_ref orc. is_analysis orc' r = is_analysis orc r"
    and "agentCapabilities orc' = agentCapabilities orc"
    and "sessionWorkflows orc' = sessionWorkflows orc"
  shows "orchestrator_ok orc'"
  using assms workflow_ok_extend [OF _ assms(2,3)]
  by (auto simp: orchestrator_ok_def)

lemma ok_send_call [simp]: "orchestrator_ok (send_call rq orc) = orchestrator_ok orc"
  by (rule orchestrator_ok_cong) (simp_all add: send_call_def)

lemma ok_uuidv4 [simp]: "orchestrator_ok (snd (uuidv4 orc)) = orchestrator_ok orc"
  by (rule orchestrator_ok_cong) (simp_all add: uuidv4_def)

lemma ok_put_workflow:
  assumes "orchestrator_ok orc" "workflow_ok orc w"
  shows "orchestrator_ok (put_workflow sid w orc)"
proof -
  have c: "workflow_ok (put_workflow sid w orc) = workflow_ok orc"
    by (intro ext workflow_ok_cong) (simp_all add: put_workflow_def)
  show ?thesis using assms unfolding orchestrator_ok_def c
    by (auto simp: put_workflow_def)
qed

lemma ok_update_task:
  assumes "orchestrator_ok orc" "\<And>t. t_type (f t) = t_type t"
  shows "orchestrator_ok (update_task r f orc)"
proof (rule orchestrator_ok_extend [OF assms(1)])
  show "\<forall>r'<next_ref orc. is_analysis (update_task r f orc) r' = is_analysis orc r'"
    by (auto simp: update_task_def is_analysis_def assms(2) split: option.splits)
qed (simp_all add: update_task_def split: option.splits)

lemma ok_new_task:
  assumes "orchestrator_ok orc"
  shows "orchestrator_ok (snd (new_task t orc))"
  by (rule orchestrator_ok_extend [OF assms]) (simp_all add: new_task_def is_analysis_def)


lemma exec_state_bind:
  "exec_state (exec_bind x f) = (case x of Done s \<Rightarrow> exec_state (f s) | Raised e s \<Rightarrow> s)"
  by (cases x) simp_all

lemma sorted_le_last: "sorted xs \<Longrightarrow> x \<in> set xs \<Longrightarrow> (x::nat) \<le> last xs"
  by (induction xs) (auto split: if_splits)

lemma workflow_ok_set_phase:
  assumes "workflow_ok orc w" "phase_index (currentPhase w) \<le> phase_index p"
    and "analysis_count orc w = 0"
  shows "workflow_ok orc (set_phase p w)"
proof -
  have "phase_index x \<le> phase_index p" if "x \<in> set (phaseTrace w)" for x
  proof -
    have "phase_index x \<le> last (map phase_index (phaseTrace w))"
      using assms(1) that by (intro sorted_le_last) (auto simp: workflow_ok_def)
    also have "\<dots> = phase_index (currentPhase w)"
      using assms(1) by (simp add: workflow_ok_def last_map)
    finally show ?thesis using assms(2) by simp
  qed
  then show ?thesis
    using assms by (auto simp: workflow_ok_def set_phase_def sorted_append analysis_count_def)
qed

lemma assign_props:
  assumes "orchestrator_ok orc" "r < next_ref orc" "\<not> is_analysis orc r"
  shows "orchestrator_ok (exec_state (assignTaskToAgent sid r orc)) \<and>
         tasks (exec_state (assignTaskToAgent sid r orc)) = tasks orc \<and>
         next_ref (exec_state (assignTaskToAgent sid r orc)) = next_ref orc \<and>
         (\<forall>s. map_option currentPhase (sessionWorkflows (exec_state (assignTaskToAgent sid r orc)) s)
              = map_option currentPhase (sessionWorkflows orc s))"
proof (cases "sessionWorkflows orc sid")
  case None
  then show ?thesis using assms by (simp add: assignTaskToAgent_def)
next
  case (Some w)
  show ?thesis
  proof (cases "tasks orc r")
    case None
    then show ?thesis using assms Some by (simp add: assignTaskToAgent_def)
  next
    case (Some t)
    let ?w1 = "w\<lparr>activeTasks := activeTasks w @ [r],
                  w_activeAgents := set_add (t_assignedAgent t) (w_activeAgents w)\<rparr>"
    have wok: "workflow_ok orc w"
      using assms(1) \<open>sessionWorkflows orc sid = Some w\<close> by (simp add: orchestrator_ok_def)
    have "workflow_ok orc ?w1"
      using wok assms(2,3) by (auto simp: workflow_ok_def analysis_count_def)
    then have ok1: "orchestrator_ok (put_workflow sid ?w1 orc)"
      by (rule ok_put_workflow [OF assms(1)])
    obtain rq where eq: "exec_state (assignTaskToAgent sid r orc) =
        send_call rq (put_workflow sid ?w1 orc)"
      using Some \<open>sessionWorkflows orc sid = Some w\<close>
      by (simp add: assignTaskToAgent_def Let_def)
    have "orchestrator_ok (send_call rq (put_workflow sid ?w1 orc))"
      using ok1 by simp
    moreover have "tasks (send_call rq (put_workflow sid ?w1 orc)) = tasks orc"
      "next_ref (send_call rq (put_workflow sid ?w1 orc)) = next_ref orc"
      "\<forall>s. map_option currentPhase (sessionWorkflows (send_call rq (put_workflow sid ?w1 orc)) s)
              = map_option currentPhase (sessionWorkflows orc s)"
      using \<open>sessionWorkflows orc sid = Some w\<close>
      by (simp_all add: send_call_def put_workflow_def)
    ultimately show ?thesis unfolding eq by simp
  qed
qed

lemma assign_all_props:
  assumes "orchestrator_ok orc" "\<forall>r\<in>set rs. r < next_ref orc \<and> \<not> is_analysis orc r"
  shows "orchestrator_ok (exec_state (assign_all sid rs orc)) \<and>
         tasks (exec_state (assign_all sid rs orc)) = tasks orc \<and>
         next_ref (exec_state (assign_all sid rs orc)) = next_ref orc \<and>
         (\<forall>s. map_option currentPhase (sessionWorkflows (exec_state (assign_all sid rs orc)) s)
              = map_option currentPhase (sessionWorkflows orc s))"
  using assms
proof (induction rs arbitrary: orc)
  case Nil
  then show ?case by simp
next
  case (Cons r rs)
  let ?x = "assignTaskToAgent sid r orc"
  have p: "orchestrator_ok (exec_state ?x) \<and> tasks (exec_state ?x) = tasks orc \<and>
         next_ref (exec_state ?x) = next_ref orc \<and>
         (\<forall>s. map_option currentPhase (sessionWorkflows (exec_state ?x) s)
              = map_option currentPhase (sessionWorkflows orc s))"
    using Cons.prems by (intro assign_props) simp_all
  show ?case
  proof (cases ?x)
    case (Raised e s)
    then show ?thesis using p by (simp add: exec_state_bind)
  next
    case (Done s)
    have ia: "is_analysis s = is_analysis orc"
      using p Done by (intro ext) (simp add: is_analysis_def)
    have "orchestrator_ok (exec_state (assign_all sid rs s)) \<and>
         tasks (exec_state (assign_all sid rs s)) = tasks s \<and>
         next_ref (exec_state (assign_all sid rs s)) = next_ref s \<and>
         (\<forall>t. map_option currentPhase (sessionWorkflows (exec_state (assign_all sid rs s)) t)
              = map_option currentPhase (sessionWorkflows s t))"
      using p Done Cons.prems(2) by (intro Cons.IH) (simp_all add: ia)
    then show ?thesis using p Done by (simp add: exec_state_bind)
  qed
qed

lemma create_props:
  assumes "orchestrator_ok orc" "\<forall>r\<in>set acc. r < next_ref orc \<and> \<not> is_analysis orc r"
  shows "orchestrator_ok (snd (createImplementationTasks sid now agents acc orc)) \<and>
         sessionWorkflows (snd (createImplementationTasks sid now agents acc orc)) =
           sessionWorkflows orc \<and>
         (\<forall>refs. fst (createImplementationTasks sid now agents acc orc) = Inr refs \<longrightarrow>
            (\<forall>r\<in>set refs. r < next_ref (snd (createImplementationTasks sid now agents acc orc)) \<and>
               \<not> is_analysis (snd (createImplementationTasks sid now agents acc orc)) r))"
  using assms
proof (induction agents arbitrary: acc orc)
  case Nil
  then show ?case by simp
next
  case (Cons agentId rest)
  obtain uid orc1 where u: "uuidv4 orc = (uid, orc1)" by (cases "uuidv4 orc")
  have o1: "orchestrator_ok orc1" "tasks orc1 = tasks orc" "next_ref orc1 = next_ref orc"
    "sessionWorkflows orc1 = sessionWorkflows orc"
    using Cons.prems(1) ok_uuidv4 [of orc] u by (auto simp: uuidv4_def)
  show ?case
  proof (cases "map_of (agentCapabilities orc1) agentId")
    case None
    then show ?thesis using o1 u by simp
  next
    case (Some c)
    let ?t = "implementation_task uid c sid agentId now"
    let ?r = "next_ref orc1"
    obtain orc2 where n: "new_task ?t orc1 = (?r, orc2)" by (simp add: new_task_def)
    have o2: "orchestrator_ok orc2" using ok_new_task [OF o1(1), of ?t] n by simp
    have r: "?r < next_ref orc2" "\<not> is_analysis orc2 ?r"
      using n by (auto simp: new_task_def is_analysis_def implementation_task_def impl_not_analysis)
    have old: "\<forall>r\<in>set acc. r < next_ref orc2 \<and> \<not> is_analysis orc2 r"
      using Cons.prems(2) o1 n by (auto simp: new_task_def is_analysis_def)
    have sw: "sessionWorkflows orc2 = sessionWorkflows orc"
      using o1 n by (auto simp: new_task_def)
    have step: "createImplementationTasks sid now (agentId # rest) acc orc =
                createImplementationTasks sid now rest (acc @ [?r]) orc2"
      using Some u n by simp
    show ?thesis
      unfolding step using Cons.IH [of orc2 "acc @ [?r]"] o2 r old sw by simp
  qed
qed

lemma workflow_ok_fields [simp]:
  "workflow_ok orc (w\<lparr>messageHistory := h\<rparr>) = workflow_ok orc w"
  "workflow_ok orc (w\<lparr>state_requirements := a\<rparr>) = workflow_ok orc w"
  "workflow_ok orc (w\<lparr>state_architecture := a\<rparr>) = workflow_ok orc w"
  "workflow_ok orc (w\<lparr>completedTasks := c\<rparr>) = workflow_ok orc w"
  "workflow_ok orc (w\<lparr>w_status := s\<rparr>) = workflow_ok orc w"
  "workflow_ok orc (w\<lparr>endTime := e\<rparr>) = workflow_ok orc w"
  "workflow_ok orc (w\<lparr>w_activeAgents := ag\<rparr>) = workflow_ok orc w"
  by (simp_all add: workflow_ok_def analysis_count_def)

lemma is_analysis_put [simp]: "is_analysis (put_workflow sid w orc) = is_analysis orc"
  by (intro ext) (simp add: is_analysis_def put_workflow_def)

lemma is_analysis_update:
  "(\<And>t. t_type (f t) = t_type t) \<Longrightarrow> is_analysis (update_task r f orc) = is_analysis orc"
  by (intro ext) (simp add: is_analysis_def update_task_def split: option.splits)

lemma findIndex_Some: "findIndex P xs = Some i \<Longrightarrow> i < length xs \<and> P (xs ! i)"
proof (induction xs arbitrary: i)
  case Nil
  then show ?case by simp
next
  case (Cons x xs)
  then show ?case by (auto split: if_splits option.splits)
qed

lemma filter_splice1:
  assumes "i < length xs"
  shows "length (filter P xs) = length (filter P (splice1 i xs)) + (if P (xs ! i) then 1 else 0)"
proof -
  have "xs = take i xs @ xs ! i # drop (Suc i) xs" using assms by (rule id_take_nth_drop)
  then have "filter P xs = filter P (take i xs @ xs ! i # drop (Suc i) xs)" by simp
  then show ?thesis by (simp add: splice1_def)
qed

lemma set_splice1: "set (splice1 i xs) \<subseteq> set xs"
  unfolding splice1_def using set_take_subset [of i xs] set_drop_subset [of "Suc i" xs] by auto

lemma ok_planning:
  assumes "orchestrator_ok orc"
    and "\<forall>w. sessionWorkflows orc sid = Some w \<longrightarrow> currentPhase w = Planning"
  shows "orchestrator_ok (exec_state (initiateImplementationPlanning sid res now orc))"
proof (cases "determineRequiredAgents (requirements res) (architecture res)")
  case (Inl e)
  then show ?thesis using assms(1) by (simp add: initiateImplementationPlanning_def)
next
  case (Inr agents)
  obtain cr orc1 where c: "createImplementationTasks sid now agents [] orc = (cr, orc1)"
    by (cases "createImplementationTasks sid now agents [] orc")
  have cp: "orchestrator_ok orc1" "sessionWorkflows orc1 = sessionWorkflows orc"
    "\<forall>refs. cr = Inr refs \<longrightarrow> (\<forall>r\<in>set refs. r < next_ref orc1 \<and> \<not> is_analysis orc1 r)"
    using create_props [OF assms(1), of "[]" sid now agents] c by simp_all
  show ?thesis
  proof (cases cr)
    case (Inl e)
    then show ?thesis using Inr c cp(1) by (simp add: initiateImplementationPlanning_def)
  next
    case (Inr refs)
    let ?x = "assign_all sid refs orc1"
    have ap: "orchestrator_ok (exec_state ?x)"
      "\<forall>s. map_option currentPhase (sessionWorkflows (exec_state ?x) s)
              = map_option currentPhase (sessionWorkflows orc1 s)"
      using assign_all_props [OF cp(1), of refs sid] cp(3) Inr by simp_all
    have unf: "exec_state (initiateImplementationPlanning sid res now orc) =
       exec_state (exec_bind ?x
                 (\<lambda>orc2. case sessionWorkflows orc2 sid of
                            None \<Rightarrow> Raised TypeError orc2
                          | Some w \<Rightarrow>
                              Done (put_workflow sid (set_phase Implementation w) orc2)))"
      using \<open>determineRequiredAgents (requirements res) (architecture res) = Inr agents\<close> c Inr
      by (simp add: initiateImplementationPlanning_def)
    show ?thesis
    proof (cases ?x)
      case (Raised e s)
      then show ?thesis using ap(1) unfolding unf by (simp add: exec_state_bind)
    next
      case (Done orc2)
      have ok2: "orchestrator_ok orc2" using ap(1) Done by simp
      show ?thesis
      proof (cases "sessionWorkflows orc2 sid")
        case None
        then show ?thesis using ok2 Done unfolding unf by (simp add: exec_state_bind)
      next
        case (Some w2)
        have "map_option currentPhase (sessionWorkflows orc2 sid) =
              map_option currentPhase (sessionWorkflows orc sid)"
          using ap(2) Done cp(2) by simp
        then have ph: "currentPhase w2 = Planning"
          using Some assms(2) by (cases "sessionWorkflows orc sid") auto
        have wok: "workflow_ok orc2 w2" using ok2 Some by (simp add: orchestrator_ok_def)
        then have cnt: "analysis_count orc2 w2 = 0" using ph by (simp add: workflow_ok_def)
        have "workflow_ok orc2 (set_phase Implementation w2)"
          using wok ph cnt by (intro workflow_ok_set_phase) simp_all
        then have "orchestrator_ok (put_workflow sid (set_phase Implementation w2) orc2)"
          by (rule ok_put_workflow [OF ok2])
        then show ?thesis using Some Done unfolding unf by (simp add: exec_state_bind)
      qed
    qed
  qed
qed

lemma ok_completion:
  assumes "orchestrator_ok orc"
  shows "orchestrator_ok (exec_state (handleTaskCompletion sid agentId message now orc))"
proof (cases "payload message")
  case None
  then show ?thesis using assms by (simp add: handleTaskCompletion_def)
next
  case (Some p)
  note pl = Some
  show ?thesis
  proof (cases "sessionWorkflows orc sid")
    case None
    then show ?thesis using assms pl by (simp add: handleTaskCompletion_def)
  next
    case (Some w)
    note wf = Some
    have wok: "workflow_ok orc w" using assms wf by (simp add: orchestrator_ok_def)
    show ?thesis
    proof (cases "findIndex (has_id orc (p_taskId p)) (activeTasks w)")
      case None
      then show ?thesis using assms pl wf by (simp add: handleTaskCompletion_def)
    next
      case (Some i)
      let ?r = "activeTasks w ! i"
      let ?f = "\<lambda>t. t\<lparr>t_status := Some ''completed'', t_completedAt := Some now,
                                  t_result := p_result p, t_deliverables := p_deliverables p\<rparr>"
      let ?orc1 = "update_task ?r ?f orc"
      let ?w1 = "w\<lparr>completedTasks := completedTasks w @ [?r],
                                activeTasks := splice1 i (activeTasks w)\<rparr>"
      let ?orc2 = "put_workflow sid ?w1 ?orc1"
      have i: "i < length (activeTasks w)" using findIndex_Some [OF Some] by simp
      have ok1: "orchestrator_ok ?orc1" by (rule ok_update_task [OF assms]) simp
      have ia: "is_analysis ?orc1 = is_analysis orc"
        by (intro ext) (simp add: is_analysis_def update_task_def split: option.splits)
      have nr: "next_ref ?orc1 = next_ref orc"
        by (simp add: update_task_def split: option.splits)
      have sw1: "sessionWorkflows ?orc1 = sessionWorkflows orc"
        by (simp add: update_task_def split: option.splits)
      have split: "analysis_count orc w =
          analysis_count ?orc1 ?w1 + (if is_analysis orc ?r then 1 else 0)"
        using filter_splice1 [OF i, of "is_analysis orc"] by (simp add: analysis_count_def ia)
      have wok1: "workflow_ok ?orc1 ?w1"
        using wok set_splice1 [of i "activeTasks w"] split
        by (auto simp: workflow_ok_def nr split: if_splits)
      have ok2: "orchestrator_ok ?orc2" by (rule ok_put_workflow [OF ok1 wok1])
      have ia2: "is_analysis ?orc2 = is_analysis orc"
        using ia by simp
      show ?thesis
      proof (cases "is_analysis orc ?r")
        case False
        then show ?thesis using pl wf Some ok2
          by (simp add: handleTaskCompletion_def Let_def is_analysis_update)
      next
        case True
        show ?thesis
        proof (cases "p_result p")
          case None
          then show ?thesis using pl wf Some ok2 True
            by (simp add: handleTaskCompletion_def Let_def is_analysis_update)
        next
          case (Some result)
          let ?w2 = "set_phase Planning (?w1\<lparr>state_requirements := requirements result,
                                             state_architecture := architecture result\<rparr>)"
          let ?orc3 = "put_workflow sid ?w2 ?orc2"
          have cw: "analysis_count orc w \<ge> 1" using split True by simp
          then have ph: "currentPhase w = Analysis"
            using wok by (auto simp: workflow_ok_def split: if_splits)
          have cnt: "analysis_count ?orc1 ?w1 = 0"
            using wok split True ph by (simp add: workflow_ok_def)
          have wok1': "workflow_ok ?orc2 ?w1"
            using wok1 workflow_ok_cong [of ?orc2 ?orc1 ?w1] by (simp add: put_workflow_def)
          have cnt': "analysis_count ?orc2 ?w1 = 0"
            using cnt ia ia2 by (simp add: analysis_count_def)
          have "workflow_ok ?orc2 ?w2"
            using wok1' cnt' ph
            by (intro workflow_ok_set_phase) (simp_all add: analysis_count_def)
          then have ok3: "orchestrator_ok ?orc3" by (rule ok_put_workflow [OF ok2])
          have "orchestrator_ok (exec_state (initiateImplementationPlanning sid result now ?orc3))"
            by (rule ok_planning [OF ok3]) (simp add: put_workflow_def set_phase_def)
          then show ?thesis using pl wf \<open>findIndex (has_id orc (p_taskId p)) (activeTasks w) = Some i\<close>
              True Some
            by (simp add: handleTaskCompletion_def Let_def is_analysis_update)
        qed
      qed
    qed
  qed
qed

lemma ok_progress:
  assumes "orchestrator_ok orc"
  shows "orchestrator_ok (exec_state (handleTaskProgress sid agentId message now orc))"
  using assms ok_update_task [OF assms]
  by (simp add: handleTaskProgress_def split: option.splits)

lemma ok_question:
  assumes "orchestrator_ok orc"
  shows "orchestrator_ok (exec_state (handleAgentQuestion sid agentId message now orc))"
  using assms by (simp add: handleAgentQuestion_def split: option.splits)

lemma ok_collaboration:
  assumes "orchestrator_ok orc"
  shows "orchestrator_ok (exec_state (handleCollaborationRequest sid agentId message now orc))"
  using assms by (simp add: handleCollaborationRequest_def split: option.splits)

text \<open>With the registry of the constructor no agent has a replacement.\<close>
lemma reassign_noop:
  assumes "agentCapabilities orc = initial_capabilities"
  shows "exec_state (reassignTask sid taskId failedAgent now orc) = orc"
  using assms no_replacement [of failedAgent]
  by (simp add: reassignTask_def split: option.splits)

lemma ok_error:
  assumes "orchestrator_ok orc"
  shows "orchestrator_ok (exec_state (handleAgentError sid agentId message now orc))"
proof -
  have "agentCapabilities orc = initial_capabilities"
    using assms by (simp add: orchestrator_ok_def)
  then show ?thesis using assms
    by (simp add: handleAgentError_def reassign_noop split: option.splits)
qed

lemma ok_handleAgentMessage:
  assumes "orchestrator_ok orc"
  shows "orchestrator_ok (handleAgentMessage sid agentId message now orc)"
proof (cases "sessionWorkflows orc sid")
  case None
  then show ?thesis using assms by (simp add: handleAgentMessage_def)
next
  case (Some w)
  define orc1 where "orc1 = (case activeAgents orc (sid @ '':'' @ agentId) of
                         None \<Rightarrow> orc
                       | Some a \<Rightarrow>
                           orc\<lparr>activeAgents := (activeAgents orc)(sid @ '':'' @ agentId \<mapsto> a\<lparr>lastSeen := now\<rparr>)\<rparr>)"
  define orc2 where "orc2 = put_workflow sid
                        (w\<lparr>messageHistory := messageHistory w @ [(message, now)]\<rparr>) orc1"
  have ok1: "orchestrator_ok orc1"
    using assms orchestrator_ok_cong [of orc1 orc]
    by (simp add: orc1_def split: option.splits)
  have "workflow_ok orc1 w"
    using assms Some workflow_ok_cong [of orc1 orc w]
    by (simp add: orc1_def orchestrator_ok_def split: option.splits)
  then have ok2: "orchestrator_ok orc2"
    unfolding orc2_def by (intro ok_put_workflow [OF ok1]) simp
  have "handleAgentMessage sid agentId message now orc = exec_state
                (if msg_type message = ''task_completion''
                 then handleTaskCompletion sid agentId message now orc2
                 else if msg_type message = ''task_progress''
                 then handleTaskProgress sid agentId message now orc2
                 else if msg_type message = ''agent_question''
                 then handleAgentQuestion sid agentId message now orc2
                 else if msg_type message = ''error_report''
                 then handleAgentError sid agentId message now orc2
                 else if msg_type message = ''collaboration_request''
                 then handleCollaborationRequest sid agentId message now orc2
                 else Done orc2)"
    using Some by (simp add: handleAgentMessage_def Let_def orc1_def orc2_def cong: option.case_cong)
  then show ?thesis
    using ok2 ok_completion [OF ok2] ok_progress [OF ok2] ok_question [OF ok2] ok_error [OF ok2]
      ok_collaboration [OF ok2]
    by simp
qed

lemma ok_startSession:
  assumes "orchestrator_ok orc"
  shows "orchestrator_ok (exec_state (startSession sid ctx req now orc))"
proof -
  obtain wid orc1 where u: "uuidv4 orc = (wid, orc1)" by (cases "uuidv4 orc")
  have ok1: "orchestrator_ok orc1" using assms ok_uuidv4 [of orc] u by simp
  define w0 where "w0 =
               \<lparr>w_id = wid, w_sessionId = sid, userRequirement = req,
                w_status = ''planning'', startTime = now, endTime = None,
                currentPhase = Analysis, activeTasks = [], completedTasks = [],
                w_activeAgents = [], messageHistory = [],
                state_requirements = JStr req, state_architecture = JUndefined,
                phaseTrace = [Analysis]\<rparr>"
  define orc2 where "orc2 = put_workflow sid w0 orc1"
  define orc3 where "orc3 = orc2\<lparr>workflowStates := (workflowStates orc2)(sid \<mapsto> ''active'')\<rparr>"
  have "workflow_ok orc1 w0" by (simp add: workflow_ok_def w0_def analysis_count_def)
  then have ok2: "orchestrator_ok orc2" unfolding orc2_def by (rule ok_put_workflow [OF ok1])
  have ok3: "orchestrator_ok orc3"
    using ok2 orchestrator_ok_cong [of orc3 orc2] by (simp add: orc3_def)
  have w3: "sessionWorkflows orc3 sid = Some w0" by (simp add: orc3_def orc2_def put_workflow_def)
  have unf: "startSession sid ctx req now orc = initiateRequirementsAnalysis sid req ctx now orc3"
    using u by (simp add: startSession_def Let_def orc3_def orc2_def w0_def)
  obtain tid orc4 where u4: "uuidv4 orc3 = (tid, orc4)" by (cases "uuidv4 orc3")
  have ok4: "orchestrator_ok orc4" using ok3 ok_uuidv4 [of orc3] u4 by simp
  have w4: "sessionWorkflows orc4 sid = Some w0" using w3 u4 by (auto simp: uuidv4_def)
  show ?thesis
  proof (cases ctx)
    case None
    then show ?thesis using ok4 u4 unfolding unf by (simp add: initiateRequirementsAnalysis_def)
  next
    case (Some c)
    let ?t = "analysis_task tid sid now"
    let ?r = "next_ref orc4"
    obtain orc5 where n: "new_task ?t orc4 = (?r, orc5)" by (simp add: new_task_def)
    have ok5: "orchestrator_ok orc5" using ok_new_task [OF ok4, of ?t] n by simp
    have w5: "sessionWorkflows orc5 sid = Some w0" "?r < next_ref orc5"
      using w4 n by (auto simp: new_task_def)
    let ?w1 = "w0\<lparr>activeTasks := activeTasks w0 @ [?r],
                                 w_activeAgents := set_add ''architectrix'' (w_activeAgents w0)\<rparr>"
    have "workflow_ok orc5 ?w1"
      using w5(2) by (simp add: workflow_ok_def w0_def analysis_count_def)
    then have ok6: "orchestrator_ok (put_workflow sid ?w1 orc5)" by (rule ok_put_workflow [OF ok5])
    show ?thesis
      unfolding unf using Some u4 n w5(1) ok6
      by (simp add: initiateRequirementsAnalysis_def Let_def)
  qed
qed

lemma ok_registerAgent:
  assumes "orchestrator_ok orc"
  shows "orchestrator_ok (exec_state (registerAgent sid agentId now orc))"
proof (cases "map_of (agentCapabilities orc) agentId")
  case None
  then show ?thesis using assms by (simp add: registerAgent_def)
next
  case (Some c)
  then show ?thesis
    using assms
    by (simp add: registerAgent_def
          orchestrator_ok_cong [of "orc\<lparr>activeAgents := a, subscriptions := b\<rparr>" orc for a b])
qed

lemma ok_stopWorkflow:
  assumes "orchestrator_ok orc"
  shows "orchestrator_ok (stopWorkflow sid now orc)"
proof (cases "sessionWorkflows orc sid")
  case None
  then show ?thesis using assms by (simp add: stopWorkflow_def)
next
  case (Some w)
  let ?orc1 = "put_workflow sid (w\<lparr>w_status := ''stopped'', endTime := Some now\<rparr>) orc"
  have "workflow_ok orc w" using assms Some by (simp add: orchestrator_ok_def)
  then have ok1: "orchestrator_ok ?orc1" by (intro ok_put_workflow [OF assms]) simp
  have "orchestrator_ok (?orc1\<lparr>activeAgents := a, workflowStates := b\<rparr>)" for a b
    using ok1 orchestrator_ok_cong [of "?orc1\<lparr>activeAgents := a, workflowStates := b\<rparr>" ?orc1]
    by simp
  then show ?thesis using Some by (simp add: stopWorkflow_def Let_def)
qed

lemma ok_new: "orchestrator_ok (AgentOrchestrator_new src)"
  by (simp add: orchestrator_ok_def AgentOrchestrator_new_def)

lemma ok_do_call: "orchestrator_ok orc \<Longrightarrow> orchestrator_ok (do_call orc c)"
  by (cases c) (simp_all add: ok_startSession ok_registerAgent ok_handleAgentMessage ok_stopWorkflow)

lemma ok_foldl: "orchestrator_ok orc \<Longrightarrow> orchestrator_ok (foldl do_call orc cs)"
  by (induction cs arbitrary: orc) (simp_all add: ok_do_call)

lemma ok_run_calls: "orchestrator_ok (run_calls src calls)"
  unfolding run_calls_def by (rule ok_foldl [OF ok_new])

text \<open>A trace that never steps back, with repetitions removed, is a subsequence of the
  list of phases.\<close>

lemma subseq_phases_from:
  "phase_index p \<le> phase_index q \<Longrightarrow> subseq (phases_from q) (phases_from p)"
  by (cases p; cases q) (simp_all add: phases_def phases_from_def)

lemma phases_from_Cons:
  "phase_index p < phase_index q \<Longrightarrow> subseq (p # phases_from q) (phases_from p)"
  by (cases p; cases q) (simp_all add: phases_def phases_from_def)

lemma sorted_trace_subseq:
  "sorted (map phase_index (p # ps)) \<Longrightarrow> subseq (remdups_adj (p # ps)) (phases_from p)"
proof (induction ps arbitrary: p)
  case Nil
  then show ?case by (cases p) (simp_all add: phases_def phases_from_def)
next
  case (Cons q ps)
  then have le: "phase_index p \<le> phase_index q" and s: "sorted (map phase_index (q # ps))"
    by simp_all
  have IH: "subseq (remdups_adj (q # ps)) (phases_from q)" by (rule Cons.IH [OF s])
  show ?case
  proof (cases "p = q")
    case True
    then show ?thesis using IH by simp
  next
    case False
    then have lt: "phase_index p < phase_index q"
      using le by (cases p; cases q) simp_all
    have "subseq (p # remdups_adj (q # ps)) (p # phases_from q)"
      using IH by (rule subseq_Cons2)
    also have "subseq (p # phases_from q) (phases_from p)" by (rule phases_from_Cons [OF lt])
    finally show ?thesis using False by simp
  qed
qed

text \<open>
  Claim C3. In every state that a new orchestrator reaches through calls of
  \<^verbatim>\<open>startSession\<close>, \<^verbatim>\<open>registerAgent\<close>, \<^verbatim>\<open>handleAgentMessage\<close> and
  \<^verbatim>\<open>stopWorkflow\<close>, for any sessions and any messages, the values that the
  \<^verbatim>\<open>currentPhase\<close> field of each workflow has taken, in order and without
  repetitions, form a subsequence of analysis, planning, implementation, review,
  completion: no assignment gives the field an earlier phase than it had.
\<close>

theorem phase_never_regresses:
  assumes "sessionWorkflows (run_calls src calls) sid = Some w"
  shows "subseq (remdups_adj (phaseTrace w)) phases \<and>
         sorted (map phase_index (phaseTrace w)) \<and>
         phaseTrace w \<noteq> [] \<and> last (phaseTrace w) = currentPhase w"
proof -
  have wok: "workflow_ok (run_calls src calls) w"
    using ok_run_calls [of src calls] assms by (simp add: orchestrator_ok_def)
  then obtain p ps where tr: "phaseTrace w = p # ps" by (cases "phaseTrace w") (auto simp: workflow_ok_def)
  have "subseq (remdups_adj (p # ps)) (phases_from p)"
    using wok tr by (intro sorted_trace_subseq) (simp add: workflow_ok_def)
  moreover have "subseq (phases_from p) phases" by (cases p) (simp_all add: phases_def phases_from_def)
  ultimately have "subseq (remdups_adj (phaseTrace w)) phases"
    unfolding tr by (rule subseq_order.trans)
  then show ?thesis using wok by (simp add: workflow_ok_def)
qed

lemma demo_run:
  "\<exists>w. sessionWorkflows (run_calls demo_src demo_calls) ''s1'' = Some w \<and>
       phaseTrace w = [Analysis, Planning, Implementation] \<and> currentPhase w = Implementation \<and>
       activeTasks w = [1, 2] \<and> completedTasks w = [0]"
  by (simp add: run_calls_def demo_calls_def demo_src_def demo_completion_def
      AgentOrchestrator_new_def startSession_def uuidv4_def put_workflow_def
      initiateRequirementsAnalysis_def new_task_def send_call_def Let_def
      handleAgentMessage_def handleTaskCompletion_def has_id_def analysis_task_def
      update_task_def splice1_def is_analysis_def set_phase_def
      initiateImplementationPlanning_def determineRequiredAgents_def set_add_def
      initial_capabilities_def implementation_task_def assignTaskToAgent_def no_payload_def)

theorem phase_never_regresses_witness:
  "\<exists>w. sessionWorkflows (run_calls demo_src demo_calls) ''s1'' = Some w \<and>
       phaseTrace w = [Analysis, Planning, Implementation] \<and>
       subseq (remdups_adj (phaseTrace w)) phases"
proof -
  obtain w where w: "sessionWorkflows (run_calls demo_src demo_calls) ''s1'' = Some w"
    and tr: "phaseTrace w = [Analysis, Planning, Implementation]"
    using demo_run by (elim exE conjE)
  from phase_never_regresses [OF w] have "subseq (remdups_adj (phaseTrace w)) phases"
    by (elim conjE)
  with w tr show ?thesis by (intro exI [of _ w] conjI)
qed

end
